theory Spec2Isabelle
  imports Complex_Main "HOL-Library.Log_Nat"
begin

section \<open>The KITTI sample pipeline of SMOKE\<close>

text \<open>
  A shallow embedding of \<^verbatim>\<open>smoke/data/datasets/kitti.py\<close>: the loader
  \<^verbatim>\<open>KITTIDataset.load_annotations\<close> and the per-sample pipeline
  \<^verbatim>\<open>KITTIDataset.__getitem__\<close>.

  Conventions of the embedding.
  \<^item> Python exceptions are values of \<open>error\<close>; a function that may raise returns
    \<open>error + 'a\<close>, with \<open>Inl\<close> for the exception.
  \<^item> Python floats and numpy \<^verbatim>\<open>float32\<close> values are modelled by the real numbers they
    denote, and arithmetic on them is exact, with one exception: the round trip of the
    flip transform depends on rounding, so the \<^verbatim>\<open>float32\<close> arithmetic of lines 116 and 117
    is also modelled with its rounding (\<open>flip_x32\<close>). Comparisons of finite floats agree
    with the comparisons of the reals they denote.
  \<^item> A text file is the list of its rows as the \<^verbatim>\<open>csv\<close> module splits them (a row is
    a list of strings); the builtin \<^verbatim>\<open>float()\<close> is a parameter \<open>pf\<close>, which yields
    \<open>None\<close> where \<^verbatim>\<open>float()\<close> raises \<^verbatim>\<open>ValueError\<close>.
  \<^item> An image is modelled by its size (width, height); pixel data plays no part in
    the targets.
  \<^item> The module-level random generator is an explicit state \<open>rng\<close>, threaded through
    the calls in the order the source makes them.
\<close>

subsection \<open>Errors\<close>

datatype error = IOError | ValueError | TypeError | KeyError | IndexError | UnboundLocalError

definition bindE :: "error + 'a \<Rightarrow> ('a \<Rightarrow> error + 'b) \<Rightarrow> error + 'b" where
  "bindE m f = (case m of Inl e \<Rightarrow> Inl e | Inr x \<Rightarrow> f x)"

subsection \<open>Data\<close>

type_synonym matrix = "real list list"

type_synonym vec3 = "real \<times> real \<times> real"

text \<open>The dictionary built for each annotation row by \<^verbatim>\<open>load_annotations\<close>.\<close>

record annotation =
  ann_class :: string
  ann_label :: nat
  ann_truncation :: real
  ann_occlusion :: real
  ann_alpha :: real
  ann_dimensions :: vec3
  ann_locations :: vec3
  ann_rot_y :: real

definition TYPE_ID_CONVERSION :: "string \<rightharpoonup> nat" where
  "TYPE_ID_CONVERSION = [''Car'' \<mapsto> 0, ''Cyclist'' \<mapsto> 1, ''Pedestrian'' \<mapsto> 2]"

text \<open>
  The twelve per-object arrays of lines 193 to 205 all have first dimension
  \<^verbatim>\<open>max_objs\<close> and are only ever written together, at one index (lines 241 to 253).
  They are modelled as one list of slots, a slot holding the entry of each array at that
  index; the arrays themselves are the projections below.
\<close>

type_synonym box = "real \<times> real \<times> real \<times> real"

record slot =
  s_cls_id :: nat
  s_regression :: matrix
  s_proj_point :: "int \<times> int"
  s_p_offset :: "real \<times> real"
  s_dimensions :: vec3
  s_locations :: vec3
  s_roty :: real
  s_reg_mask :: nat
  s_flip_mask :: nat
  s_regression_2d :: box
  s_p_2d_offset :: "real \<times> real"
  s_p_2d_wh :: "real \<times> real"

record buffers =
  heat_map :: "real list list list"
  slots :: "slot list"

definition cls_ids :: "buffers \<Rightarrow> nat list" where
  "cls_ids b = map s_cls_id (slots b)"

definition reg_mask :: "buffers \<Rightarrow> nat list" where
  "reg_mask b = map s_reg_mask (slots b)"

definition flip_mask :: "buffers \<Rightarrow> nat list" where
  "flip_mask b = map s_flip_mask (slots b)"

text \<open>
  The returned \<^verbatim>\<open>ParamsList\<close>: at inference the image size, \<^verbatim>\<open>trans_mat\<close> and \<^verbatim>\<open>P\<close>;
  in training the image size, the buffers, \<^verbatim>\<open>trans_mat\<close> and \<^verbatim>\<open>P\<close>.
\<close>

datatype target =
  InferenceTarget "real \<times> real" matrix matrix
| TrainTarget "int \<times> int" buffers matrix matrix

fun target_P :: "target \<Rightarrow> matrix" where
  "target_P (InferenceTarget sz tm P) = P"
| "target_P (TrainTarget sz b tm P) = P"

text \<open>
  The attributes of a \<^verbatim>\<open>KITTIDataset\<close> object after \<^verbatim>\<open>__init__\<close>, as
  \<^verbatim>\<open>__getitem__\<close> and \<^verbatim>\<open>load_annotations\<close> read them.
\<close>

record dataset =
  is_train :: bool
  image_files :: "string list"
  label_files :: "string list"
  classes :: "string list"
  flip_prob :: real
  aug_prob :: real
  gaussian_prob :: real
  color_prob :: real
  shift_scale :: "real \<times> real"
  right_prob :: real
  mosaic_prob :: real
  input_width :: int
  input_height :: int
  output_width :: int
  output_height :: int
  max_objs :: nat
  transforms :: "((int \<times> int) \<times> target \<Rightarrow> (int \<times> int) \<times> target) option"

definition num_samples :: "dataset \<Rightarrow> nat" where
  "num_samples ds = length (image_files ds)"

definition num_classes :: "dataset \<Rightarrow> nat" where
  "num_classes ds = length (classes ds)"

text \<open>
  The four directories under the dataset root, each a partial map from file name to
  content: a name outside the domain cannot be opened.
\<close>

record files =
  image_dir :: "string \<rightharpoonup> nat \<times> nat"
  image3_dir :: "string \<rightharpoonup> nat \<times> nat"
  label_dir :: "string \<rightharpoonup> string list list"
  calib_dir :: "string \<rightharpoonup> string list list"

subsection \<open>The loader: \<^verbatim>\<open>load_annotations\<close>\<close>

text \<open>
  \<^verbatim>\<open>csv.DictReader\<close> with the fifteen field names: a field beyond the end of a short
  row reads as \<^verbatim>\<open>None\<close>. The positions are
  type 0, truncated 1, occluded 2, alpha 3, xmin 4, ymin 5, xmax 6, ymax 7, dh 8, dw 9,
  dl 10, lx 11, ly 12, lz 13, ry 14.
\<close>

definition field :: "string list \<Rightarrow> nat \<Rightarrow> string option" where
  "field row k = (if k < length row then Some (row ! k) else None)"

text \<open>\<^verbatim>\<open>float(v)\<close>: \<^verbatim>\<open>TypeError\<close> on \<^verbatim>\<open>None\<close>, \<^verbatim>\<open>ValueError\<close> on malformed text.\<close>

definition to_float :: "(string \<Rightarrow> real option) \<Rightarrow> string option \<Rightarrow> error + real" where
  "to_float pf v =
     (case v of
        None \<Rightarrow> Inl TypeError
      | Some s \<Rightarrow> (case pf s of None \<Rightarrow> Inl ValueError | Some x \<Rightarrow> Inr x))"

text \<open>
  The dictionary literal of lines 295 to 304; its entries are evaluated in the order
  written, so the first failing conversion decides the exception.
\<close>

definition parse_annotation ::
  "(string \<Rightarrow> real option) \<Rightarrow> string \<Rightarrow> string list \<Rightarrow> error + annotation" where
  "parse_annotation pf ty row =
     bindE (case TYPE_ID_CONVERSION ty of None \<Rightarrow> Inl KeyError | Some l \<Rightarrow> Inr l) (\<lambda>lbl.
     bindE (to_float pf (field row 1)) (\<lambda>tr.
     bindE (to_float pf (field row 2)) (\<lambda>oc.
     bindE (to_float pf (field row 3)) (\<lambda>al.
     bindE (to_float pf (field row 10)) (\<lambda>dl.
     bindE (to_float pf (field row 8)) (\<lambda>dh.
     bindE (to_float pf (field row 9)) (\<lambda>dw.
     bindE (to_float pf (field row 11)) (\<lambda>lx.
     bindE (to_float pf (field row 12)) (\<lambda>ly.
     bindE (to_float pf (field row 13)) (\<lambda>lz.
     bindE (to_float pf (field row 14)) (\<lambda>ry.
       Inr \<lparr>ann_class = ty, ann_label = lbl, ann_truncation = tr, ann_occlusion = oc,
            ann_alpha = al, ann_dimensions = (dl, dh, dw), ann_locations = (lx, ly, lz),
            ann_rot_y = ry\<rparr>)))))))))))"

text \<open>
  The loop over the rows of the label file (line 293). \<^verbatim>\<open>DictReader\<close> skips empty
  rows; a row whose type is not a configured class is dropped.
\<close>

fun read_labels ::
  "(string \<Rightarrow> real option) \<Rightarrow> string list \<Rightarrow> string list list \<Rightarrow> error + annotation list" where
  "read_labels pf cls [] = Inr []"
| "read_labels pf cls (row # rows) =
     (case row of
        [] \<Rightarrow> read_labels pf cls rows
      | ty # _ \<Rightarrow>
          if ty \<in> set cls then
            (case parse_annotation pf ty row of
               Inl e \<Rightarrow> Inl e
             | Inr a \<Rightarrow>
                 (case read_labels pf cls rows of
                    Inl e \<Rightarrow> Inl e
                  | Inr as \<Rightarrow> Inr (a # as)))
          else read_labels pf cls rows)"

text \<open>\<^verbatim>\<open>[float(i) for i in row[1:]]\<close>\<close>

fun floats :: "(string \<Rightarrow> real option) \<Rightarrow> string list \<Rightarrow> error + real list" where
  "floats pf [] = Inr []"
| "floats pf (s # ss) =
     (case to_float pf (Some s) of
        Inl e \<Rightarrow> Inl e
      | Inr x \<Rightarrow> (case floats pf ss of Inl e \<Rightarrow> Inl e | Inr xs \<Rightarrow> Inr (x # xs)))"

text \<open>\<^verbatim>\<open>np.array(xs, dtype=np.float32).reshape(3, 4)\<close>: twelve values or \<^verbatim>\<open>ValueError\<close>.\<close>

definition reshape_3_4 :: "real list \<Rightarrow> error + matrix" where
  "reshape_3_4 xs =
     (if length xs = 12 then Inr [take 4 xs, take 4 (drop 4 xs), drop 8 xs]
      else Inl ValueError)"

definition parse_matrix :: "(string \<Rightarrow> real option) \<Rightarrow> string list \<Rightarrow> error + matrix" where
  "parse_matrix pf vals = bindE (floats pf vals) reshape_3_4"

text \<open>
  The loop over the rows of the calibration file (lines 308 to 318). \<^verbatim>\<open>csv.reader\<close>
  yields an empty list for an empty line, on which \<^verbatim>\<open>row[0]\<close> raises. The argument
  \<open>P2\<close> is the local variable of that name, \<open>None\<close> while unbound; the loop stops at
  the first \<^verbatim>\<open>P3:\<close> row.
\<close>

fun read_calib ::
  "(string \<Rightarrow> real option) \<Rightarrow> string list list \<Rightarrow> matrix option \<Rightarrow>
   error + (matrix option \<times> matrix option)" where
  "read_calib pf [] P2 = Inr (P2, None)"
| "read_calib pf (row # rows) P2 =
     (case row of
        [] \<Rightarrow> Inl IndexError
      | tag # vals \<Rightarrow>
          if tag = ''P2:'' then
            (case parse_matrix pf vals of
               Inl e \<Rightarrow> Inl e
             | Inr m \<Rightarrow> read_calib pf rows (Some m))
          else if tag = ''P3:'' then
            (case parse_matrix pf vals of
               Inl e \<Rightarrow> Inl e
             | Inr m \<Rightarrow> Inr (P2, Some m))
          else read_calib pf rows P2)"

text \<open>Reading a local variable at the \<^verbatim>\<open>return\<close> of line 319.\<close>

definition local_var :: "'a option \<Rightarrow> error + 'a" where
  "local_var v = (case v of None \<Rightarrow> Inl UnboundLocalError | Some x \<Rightarrow> Inr x)"

definition open_file :: "(string \<rightharpoonup> 'a) \<Rightarrow> string \<Rightarrow> error + 'a" where
  "open_file dir name = (case dir name of None \<Rightarrow> Inl IOError | Some c \<Rightarrow> Inr c)"

definition list_get :: "'a list \<Rightarrow> nat \<Rightarrow> error + 'a" where
  "list_get xs i = (if i < length xs then Inr (xs ! i) else Inl IndexError)"

definition load_annotations ::
  "(string \<Rightarrow> real option) \<Rightarrow> dataset \<Rightarrow> files \<Rightarrow> nat \<Rightarrow>
   error + (annotation list \<times> matrix \<times> matrix)" where
  "load_annotations pf ds fs idx =
     bindE (list_get (label_files ds) idx) (\<lambda>file_name.
     bindE (if is_train ds
            then bindE (open_file (label_dir fs) file_name) (read_labels pf (classes ds))
            else Inr []) (\<lambda>annotations.
     bindE (open_file (calib_dir fs) file_name) (\<lambda>rows.
     bindE (read_calib pf rows None) (\<lambda>(P2, P3).
     bindE (local_var P2) (\<lambda>P2.
     bindE (local_var P3) (\<lambda>P3.
       Inr (annotations, P2, P3)))))))"

subsection \<open>The random generator\<close>

text \<open>
  The state of Python's module-level generator: the stream of values that successive
  calls of \<^verbatim>\<open>random.random()\<close> return, the stream of integers behind
  \<^verbatim>\<open>random.choice\<close>, and how far each has been consumed.
\<close>

record rng =
  floats_tape :: "nat \<Rightarrow> real"
  fpos :: nat
  picks_tape :: "nat \<Rightarrow> nat"
  ppos :: nat

definition random_random :: "rng \<Rightarrow> real \<times> rng" where
  "random_random g = (floats_tape g (fpos g), g\<lparr>fpos := Suc (fpos g)\<rparr>)"

text \<open>\<^verbatim>\<open>random.uniform(a, b)\<close> is \<^verbatim>\<open>a + (b - a) * random()\<close>.\<close>

definition random_uniform :: "real \<Rightarrow> real \<Rightarrow> rng \<Rightarrow> real \<times> rng" where
  "random_uniform a b g = (let (u, g') = random_random g in (a + (b - a) * u, g'))"

text \<open>\<^verbatim>\<open>random.choice(seq)\<close>: \<^verbatim>\<open>IndexError\<close> on an empty sequence.\<close>

definition random_choice :: "'a list \<Rightarrow> rng \<Rightarrow> error + ('a \<times> rng)" where
  "random_choice xs g =
     (if xs = [] then Inl IndexError
      else Inr (xs ! (picks_tape g (ppos g) mod length xs), g\<lparr>ppos := Suc (ppos g)\<rparr>))"

text \<open>
  \<^verbatim>\<open>np.arange(start, stop, step)\<close> for a positive step, in exact arithmetic. numpy
  computes the length in double precision, where the quotient can round across an
  integer, so that its array can be one element longer than this list (as for the shift
  range of shift 0.1). The values drawn from these ranges enter only the jittered centre
  and size; no property below depends on them or on the length.
\<close>

definition arange :: "real \<Rightarrow> real \<Rightarrow> real \<Rightarrow> real list" where
  "arange start stop step =
     map (\<lambda>k. start + real k * step) [0..<nat \<lceil>(stop - start) / step\<rceil>]"

subsection \<open>Collaborators outside the file\<close>

text \<open>
  \<^verbatim>\<open>__getitem__\<close> calls five functions of the modules
  \<^verbatim>\<open>smoke.modeling.heatmap_coder\<close> and \<^verbatim>\<open>smoke.modeling.smoke_coder\<close>, whose code is
  not part of the sources at hand. They are parameters of the model, collected in one
  record; every theorem below holds for all of them.
\<close>

record coder =
  get_transfrom_matrix :: "(real \<times> real) \<times> (real \<times> real) \<Rightarrow> int \<times> int \<Rightarrow> matrix"
  affine_transform :: "real \<times> real \<Rightarrow> matrix \<Rightarrow> real \<times> real"
  gaussian_radius :: "real \<Rightarrow> real \<Rightarrow> real"
  draw_umich_gaussian :: "real list list \<Rightarrow> int \<times> int \<Rightarrow> int \<Rightarrow> real list list"
  encode_label :: "matrix \<Rightarrow> real \<Rightarrow> vec3 \<Rightarrow> vec3 \<Rightarrow> (real \<times> real) \<times> box \<times> matrix"

subsection \<open>Augmentation decisions: lines 84 to 177 of \<^verbatim>\<open>__getitem__\<close>\<close>

text \<open>View selection, lines 91 to 100: the draw is made only in training.\<close>

definition choose_view :: "dataset \<Rightarrow> rng \<Rightarrow> bool \<times> rng" where
  "choose_view ds g =
     (if is_train ds then
        (let (r, g1) = random_random g in (\<not> r < right_prob ds, g1))
      else (True, g))"

text \<open>
  The flip of a horizontal coordinate, the right-hand side of lines 116 and 117, in exact
  arithmetic.
\<close>

definition flip_x :: "real \<Rightarrow> real \<Rightarrow> real" where
  "flip_x width c = width - c - 1"

text \<open>
  The same right-hand side as numpy computes it. \<^verbatim>\<open>size\<close>, \<^verbatim>\<open>center\<close> and \<^verbatim>\<open>P\<close> are
  \<^verbatim>\<open>float32\<close> arrays, so each of the two subtractions is rounded to \<^verbatim>\<open>float32\<close>: to the
  nearest multiple of \<open>2\<close> to the power \<open>e - 23\<close>, where \<open>e\<close> is the binary exponent of
  the exact result (at least \<open>- 126\<close>, the subnormal range), ties going to the even
  multiple. Overflow to infinity, beyond \<open>2\<close> to the power 128, is outside the model.
\<close>

definition round_half_even :: "real \<Rightarrow> int" where
  "round_half_even y =
     (let f = \<lfloor>y\<rfloor>; d = y - of_int f in
      if d < 1 / 2 then f else if 1 / 2 < d then f + 1 else if even f then f else f + 1)"

text \<open>The binary exponent of a nonzero real: \<open>2 ^ e \<le> \<bar>x\<bar> < 2 ^ (e + 1)\<close>.\<close>

definition exponent2 :: "real \<Rightarrow> int" where
  "exponent2 x =
     (if 1 \<le> \<bar>x\<bar> then int (floorlog 2 (nat \<lfloor>\<bar>x\<bar>\<rfloor>)) - 1
      else - int (floorlog 2 (nat \<lceil>1 / \<bar>x\<bar>\<rceil> - 1)))"

definition pow2 :: "int \<Rightarrow> real" where
  "pow2 k = (if 0 \<le> k then 2 ^ nat k else 1 / 2 ^ nat (- k))"

definition round32 :: "real \<Rightarrow> real" where
  "round32 x =
     (if x = 0 then 0
      else (let u = pow2 (max (exponent2 x) (- 126) - 23) in
            of_int (round_half_even (x / u)) * u))"

definition flip_x32 :: "real \<Rightarrow> real \<Rightarrow> real" where
  "flip_x32 width c = round32 (round32 (width - c) - 1)"

text \<open>
  Horizontal flip, lines 112 to 117. The conjunction is evaluated left to right, so the
  draw is made in training whatever the view. \<^verbatim>\<open>P[0, 2]\<close> is read and written in
  place; an index outside the array raises.
\<close>

definition flip_step ::
  "dataset \<Rightarrow> bool \<Rightarrow> real \<times> real \<Rightarrow> real \<times> real \<Rightarrow> matrix \<Rightarrow> rng \<Rightarrow>
   error + (bool \<times> (real \<times> real) \<times> matrix \<times> rng)" where
  "flip_step ds use_left center vsize P g =
     (if is_train ds then
        (let (r, g1) = random_random g in
         if r < flip_prob ds \<and> use_left then
           (if 0 < length P \<and> 2 < length (P ! 0) then
              Inr (True, (flip_x (fst vsize) (fst center), snd center),
                   P[0 := (P ! 0)[2 := flip_x (fst vsize) (P ! 0 ! 2)]], g1)
            else Inl IndexError)
         else Inr (False, center, P, g1))
      else Inr (False, center, P, g))"

text \<open>Shift and scale jitter, lines 119 to 128.\<close>

definition affine_step ::
  "dataset \<Rightarrow> real \<times> real \<Rightarrow> real \<times> real \<Rightarrow> rng \<Rightarrow>
   error + (bool \<times> (real \<times> real) \<times> (real \<times> real) \<times> rng)" where
  "affine_step ds center vsize g =
     (if is_train ds then
        (let (r, g1) = random_random g in
         if r < aug_prob ds then
           (let (shift, scale) = shift_scale ds;
                shift_ranges = arange (- shift) (shift + 1 / 10) (1 / 10) in
            bindE (random_choice shift_ranges g1) (\<lambda>(s0, g2).
            bindE (random_choice shift_ranges g2) (\<lambda>(s1, g3).
            bindE (random_choice (arange (1 - scale) (1 + scale + 1 / 10) (1 / 10)) g3) (\<lambda>(sc, g4).
              Inr (True,
                   (fst center + fst vsize * s0, snd center + snd vsize * s1),
                   (fst vsize * sc, snd vsize * sc), g4)))))
         else Inr (False, center, vsize, g1))
      else Inr (False, center, vsize, g))"

text \<open>
  A region of the output grid, \<^verbatim>\<open>[x0, x1, y0, y1]\<close>, and the test of line 232.
\<close>

type_synonym region = "real \<times> real \<times> real \<times> real"

definition in_region :: "region \<Rightarrow> real \<times> real \<Rightarrow> bool" where
  "in_region r p =
     (case r of (x0, x1, y0, y1) \<Rightarrow>
        (x0 < fst p \<and> fst p < x1) \<and> (y0 < snd p \<and> snd p < y1))"

definition full_region :: "dataset \<Rightarrow> region" where
  "full_region ds = (0, real_of_int (output_width ds), 0, real_of_int (output_height ds))"

text \<open>
  What the augmentation hands to target assembly: the flags, the virtual centre and
  size, the image size, the three per-source lists of lines 89, 105 and 106, the indices
  passed to \<^verbatim>\<open>load_annotations\<close> in call order, and the generator after the mosaic
  step.
\<close>

record plan =
  pl_use_left :: bool
  pl_flipped :: bool
  pl_affine :: bool
  pl_center :: "real \<times> real"
  pl_size :: "real \<times> real"
  pl_img_size :: "nat \<times> nat"
  pl_anns_list :: "annotation list list"
  pl_region_list :: "region list"
  pl_P_list :: "matrix list"
  pl_P :: matrix
  pl_fetched :: "nat list"
  pl_rng :: rng

text \<open>
  Mosaic composition, lines 130 to 150. The result is the three per-source lists, the
  index of the partner when one was fetched, and the generator.
\<close>

definition mosaic_step ::
  "(string \<Rightarrow> real option) \<Rightarrow> dataset \<Rightarrow> files \<Rightarrow> bool \<Rightarrow> bool \<Rightarrow> bool \<Rightarrow> nat \<times> nat \<Rightarrow>
   annotation list \<Rightarrow> matrix \<Rightarrow> rng \<Rightarrow>
   error + (annotation list list \<times> region list \<times> matrix list \<times> nat list \<times> rng)" where
  "mosaic_step pf ds fs use_left affine flipped img anns P g =
     (if is_train ds \<and> 0 < mosaic_prob ds \<and> \<not> affine \<and> \<not> flipped then
        bindE (random_choice [0..<num_samples ds] g) (\<lambda>(mosaic_idx, g1).
        bindE (load_annotations pf ds fs mosaic_idx) (\<lambda>(mosaic_anns, mosaic_P2, mosaic_P3).
        bindE (list_get (image_files ds) mosaic_idx) (\<lambda>mosaic_name.
        bindE (open_file ((if use_left then image_dir else image3_dir) fs) mosaic_name)
          (\<lambda>mosaic_img.
        if mosaic_img = img then
          (let (left_ratio, g2) = random_uniform (3 / 10) (7 / 10) g1;
               split = left_ratio * real_of_int (output_width ds) in
           Inr ([anns, mosaic_anns],
                [(0, split, 0, real_of_int (output_height ds)),
                 (split, real_of_int (output_width ds), 0, real_of_int (output_height ds))],
                [P, if use_left then mosaic_P2 else mosaic_P3],
                [mosaic_idx], g2))
        else Inr ([anns], [full_region ds], [P], [mosaic_idx], g1)))))
      else Inr ([anns], [full_region ds], [P], [], g))"

text \<open>
  Lines 84 to 150. \<^verbatim>\<open>P_list = [P]\<close> of line 106 holds the very array that line 117
  updates in place, so the list holds the flipped matrix.
\<close>

definition augment ::
  "(string \<Rightarrow> real option) \<Rightarrow> dataset \<Rightarrow> files \<Rightarrow> nat \<Rightarrow> rng \<Rightarrow> error + plan" where
  "augment pf ds fs idx g =
     bindE (list_get (label_files ds) idx) (\<lambda>_.
     bindE (load_annotations pf ds fs idx) (\<lambda>(anns, P2, P3).
     (let (use_left, g1) = choose_view ds g in
      bindE (list_get (image_files ds) idx) (\<lambda>img_name.
      bindE (open_file ((if use_left then image_dir else image3_dir) fs) img_name) (\<lambda>img.
      (let center = (real (fst img) / 2, real (snd img) / 2);
           vsize = (real (fst img), real (snd img)) in
       bindE (flip_step ds use_left center vsize (if use_left then P2 else P3) g1)
         (\<lambda>(flipped, center, P, g2).
       bindE (affine_step ds center vsize g2) (\<lambda>(affine, center, vsize, g3).
       bindE (mosaic_step pf ds fs use_left affine flipped img anns P g3)
         (\<lambda>(anns_list, region_list, P_list, fetched, g4).
         Inr \<lparr>pl_use_left = use_left, pl_flipped = flipped, pl_affine = affine,
              pl_center = center, pl_size = vsize, pl_img_size = img,
              pl_anns_list = anns_list, pl_region_list = region_list, pl_P_list = P_list,
              pl_P = P, pl_fetched = idx # fetched, pl_rng = g4\<rparr>)))))))))"

subsection \<open>Target assembly: lines 192 to 253 of \<^verbatim>\<open>__getitem__\<close>\<close>

text \<open>\<^verbatim>\<open>int(x)\<close> and \<^verbatim>\<open>astype(np.int32)\<close> on a float: rounding towards zero.\<close>

definition trunc :: "real \<Rightarrow> int" where
  "trunc x = (if 0 \<le> x then \<lfloor>x\<rfloor> else \<lceil>x\<rceil>)"

text \<open>\<^verbatim>\<open>x.clip(lo, hi)\<close> is \<^verbatim>\<open>minimum(maximum(x, lo), hi)\<close>.\<close>

definition clip :: "real \<Rightarrow> real \<Rightarrow> real \<Rightarrow> real" where
  "clip x lo hi = min (max x lo) hi"

text \<open>The values computed for one annotation by lines 212 to 230.\<close>

record encoded =
  e_cls :: nat
  e_locs :: vec3
  e_rot_y :: real
  e_point :: "real \<times> real"
  e_box2d :: box
  e_box3d :: matrix
  e_h :: real
  e_w :: real
  e_center_2d :: "real \<times> real"

definition encode_geometry ::
  "coder \<Rightarrow> dataset \<Rightarrow> bool \<Rightarrow> matrix \<Rightarrow> matrix \<Rightarrow> annotation \<Rightarrow> encoded" where
  "encode_geometry co ds flipped trans_mat P a =
     (let locs = (case ann_locations a of (x, y, z) \<Rightarrow> if flipped then (- x, y, z) else (x, y, z));
          rot_y = (if flipped then - ann_rot_y a else ann_rot_y a);
          (point, (bx0, by0, bx1, by1), box3d) = encode_label co P rot_y (ann_dimensions a) locs;
          point = affine_transform co point trans_mat;
          (x0, y0) = affine_transform co (bx0, by0) trans_mat;
          (x1, y1) = affine_transform co (bx1, by1) trans_mat;
          x0 = clip x0 0 (real_of_int (output_width ds - 1));
          x1 = clip x1 0 (real_of_int (output_width ds - 1));
          y0 = clip y0 0 (real_of_int (output_height ds - 1));
          y1 = clip y1 0 (real_of_int (output_height ds - 1))
      in \<lparr>e_cls = ann_label a, e_locs = locs, e_rot_y = rot_y, e_point = point,
          e_box2d = (x0, y0, x1, y1), e_box3d = box3d,
          e_h = y1 - y0, e_w = x1 - x0,
          e_center_2d = ((x0 + x1) * (1 / 2), (y0 + y1) * (1 / 2))\<rparr>)"

text \<open>
  The output-grid keypoint of an annotation: \<^verbatim>\<open>point\<close> after line 224, the value
  tested at line 232.
\<close>

definition keypoint ::
  "coder \<Rightarrow> dataset \<Rightarrow> bool \<Rightarrow> matrix \<Rightarrow> matrix \<Rightarrow> annotation \<Rightarrow> real \<times> real" where
  "keypoint co ds flipped trans_mat P a = e_point (encode_geometry co ds flipped trans_mat P a)"

definition point_int :: "real \<times> real \<Rightarrow> int \<times> int" where
  "point_int p = (trunc (fst p), trunc (snd p))"

text \<open>The entries written at one index by lines 241 to 253.\<close>

definition slot_of :: "bool \<Rightarrow> bool \<Rightarrow> annotation \<Rightarrow> encoded \<Rightarrow> slot" where
  "slot_of flipped affine a e =
     (let p = e_point e; q = point_int p in
      \<lparr>s_cls_id = e_cls e,
       s_regression = e_box3d e,
       s_proj_point = q,
       s_p_offset = (fst p - real_of_int (fst q), snd p - real_of_int (snd q)),
       s_dimensions = ann_dimensions a,
       s_locations = e_locs e,
       s_roty = e_rot_y e,
       s_reg_mask = (if \<not> affine then 1 else 0),
       s_flip_mask = (if \<not> affine \<and> flipped then 1 else 0),
       s_regression_2d = e_box2d e,
       s_p_2d_offset = (fst (e_center_2d e) - real_of_int (fst q),
                        snd (e_center_2d e) - real_of_int (snd q)),
       s_p_2d_wh = (e_w e, e_h e)\<rparr>)"

text \<open>
  Lines 235 to 253, the body of the test of line 232: the heat-map channel of the class
  is redrawn, then the slot at index \<open>i\<close> is written. An index outside an array raises
  \<^verbatim>\<open>IndexError\<close>; the source has no other guard on \<open>i\<close>.
\<close>

definition write_object ::
  "coder \<Rightarrow> bool \<Rightarrow> bool \<Rightarrow> nat \<Rightarrow> annotation \<Rightarrow> encoded \<Rightarrow> buffers \<Rightarrow> error + buffers" where
  "write_object co flipped affine i a e bufs =
     (let radius = max 0 (trunc (gaussian_radius co (e_h e) (e_w e))) in
      if e_cls e < length (heat_map bufs) then
        (let hm = (heat_map bufs)[e_cls e :=
                    draw_umich_gaussian co (heat_map bufs ! e_cls e) (point_int (e_point e)) radius] in
         if i < length (slots bufs) then
           Inr (bufs\<lparr>heat_map := hm, slots := (slots bufs)[i := slot_of flipped affine a e]\<rparr>)
         else Inl IndexError)
      else Inl IndexError)"

text \<open>The body of the inner loop, lines 212 to 253, for the annotation at index \<open>i\<close>.\<close>

definition encode_object ::
  "coder \<Rightarrow> dataset \<Rightarrow> bool \<Rightarrow> bool \<Rightarrow> matrix \<Rightarrow> region \<Rightarrow> matrix \<Rightarrow> nat \<Rightarrow> annotation \<Rightarrow>
   buffers \<Rightarrow> error + buffers" where
  "encode_object co ds flipped affine trans_mat region P i a bufs =
     (let e = encode_geometry co ds flipped trans_mat P a in
      if in_region region (e_point e) then write_object co flipped affine i a e bufs
      else Inr bufs)"

text \<open>
  The inner loop, \<^verbatim>\<open>for i, a in enumerate(anns)\<close> (line 211): \<open>i\<close> is the position of
  the annotation in the list of its own source, counted from the argument.
\<close>

fun encode_anns ::
  "coder \<Rightarrow> dataset \<Rightarrow> bool \<Rightarrow> bool \<Rightarrow> matrix \<Rightarrow> region \<Rightarrow> matrix \<Rightarrow> nat \<Rightarrow> annotation list \<Rightarrow>
   buffers \<Rightarrow> error + buffers" where
  "encode_anns co ds flipped affine trans_mat region P i [] bufs = Inr bufs"
| "encode_anns co ds flipped affine trans_mat region P i (a # as) bufs =
     (case encode_object co ds flipped affine trans_mat region P i a bufs of
        Inl e \<Rightarrow> Inl e
      | Inr bufs' \<Rightarrow> encode_anns co ds flipped affine trans_mat region P (Suc i) as bufs')"

text \<open>
  The outer loop, \<^verbatim>\<open>for i in range(len(anns_list))\<close> (line 207), over the list of
  indices. Each round reads the three lists at the index the iterator yields, rebinds
  \<^verbatim>\<open>P\<close> (line 210) and runs the inner loop from position 0. The state is the buffers
  and the variable \<^verbatim>\<open>P\<close>.
\<close>

fun encode_sources ::
  "coder \<Rightarrow> dataset \<Rightarrow> plan \<Rightarrow> matrix \<Rightarrow> nat list \<Rightarrow> buffers \<times> matrix \<Rightarrow>
   error + (buffers \<times> matrix)" where
  "encode_sources co ds pl trans_mat [] st = Inr st"
| "encode_sources co ds pl trans_mat (i # is) st =
     (case list_get (pl_anns_list pl) i of
        Inl e \<Rightarrow> Inl e
      | Inr anns \<Rightarrow>
     (case list_get (pl_region_list pl) i of
        Inl e \<Rightarrow> Inl e
      | Inr region \<Rightarrow>
     (case list_get (pl_P_list pl) i of
        Inl e \<Rightarrow> Inl e
      | Inr P \<Rightarrow>
     (case encode_anns co ds (pl_flipped pl) (pl_affine pl) trans_mat region P 0 anns (fst st) of
        Inl e \<Rightarrow> Inl e
      | Inr bufs' \<Rightarrow> encode_sources co ds pl trans_mat is (bufs', P)))))"

text \<open>The zero arrays of lines 192 to 205; \<^verbatim>\<open>np.zeros\<close> rejects a negative dimension.\<close>

definition zero_slot :: slot where
  "zero_slot =
     \<lparr>s_cls_id = 0, s_regression = replicate 3 (replicate 8 0), s_proj_point = (0, 0),
      s_p_offset = (0, 0), s_dimensions = (0, 0, 0), s_locations = (0, 0, 0), s_roty = 0,
      s_reg_mask = 0, s_flip_mask = 0, s_regression_2d = (0, 0, 0, 0),
      s_p_2d_offset = (0, 0), s_p_2d_wh = (0, 0)\<rparr>"

definition zero_buffers :: "dataset \<Rightarrow> error + buffers" where
  "zero_buffers ds =
     (if output_height ds < 0 \<or> output_width ds < 0 then Inl ValueError
      else Inr \<lparr>heat_map = replicate (num_classes ds)
                   (replicate (nat (output_height ds)) (replicate (nat (output_width ds)) 0)),
                slots = replicate (max_objs ds) zero_slot\<rparr>)"

definition assemble ::
  "coder \<Rightarrow> dataset \<Rightarrow> plan \<Rightarrow> matrix \<Rightarrow> error + (buffers \<times> matrix)" where
  "assemble co ds pl trans_mat =
     bindE (zero_buffers ds) (\<lambda>bufs.
       encode_sources co ds pl trans_mat [0..<length (pl_anns_list pl)] (bufs, pl_P pl))"

subsection \<open>The returned target: lines 174 to 190 and 258 to 281\<close>

text \<open>
  Lines 258 and 259 (181 and 182 at inference): a row of ones is appended, which needs
  four columns, and the first three entries of row 3 are set to zero.
\<close>

definition extend_P :: "matrix \<Rightarrow> error + matrix" where
  "extend_P P =
     (if list_all (\<lambda>row. length row = 4) P then
        (let Q = P @ [[1, 1, 1, 1]] in
         if 3 < length Q then Inr (Q[3 := [0, 0, 0] @ drop 3 (Q ! 3)])
         else Inl IndexError)
      else Inl ValueError)"

definition apply_transforms :: "dataset \<Rightarrow> (int \<times> int) \<times> target \<Rightarrow> (int \<times> int) \<times> target" where
  "apply_transforms ds r = (case transforms ds of None \<Rightarrow> r | Some f \<Rightarrow> f r)"

text \<open>
  \<^verbatim>\<open>__getitem__\<close>. The image is resampled to the network-input size (lines 157 to
  172); its pixels, the photometric perturbations of lines 152 to 155 and the debug
  image have no part in the target and are left out, as is the returned file stem.
\<close>

definition getitem ::
  "coder \<Rightarrow> (string \<Rightarrow> real option) \<Rightarrow> dataset \<Rightarrow> files \<Rightarrow> nat \<Rightarrow> rng \<Rightarrow>
   error + ((int \<times> int) \<times> target)" where
  "getitem co pf ds fs idx g =
     bindE (augment pf ds fs idx g) (\<lambda>pl.
     (let img = (input_width ds, input_height ds);
          trans_mat = get_transfrom_matrix co (pl_center pl, pl_size pl)
                        (output_width ds, output_height ds) in
      if \<not> is_train ds then
        bindE (extend_P (pl_P pl)) (\<lambda>P.
          Inr (apply_transforms ds (img, InferenceTarget (pl_size pl) trans_mat P)))
      else
        bindE (assemble co ds pl trans_mat) (\<lambda>(bufs, P).
        bindE (extend_P P) (\<lambda>P.
          Inr (apply_transforms ds (img, TrainTarget img bufs trans_mat P))))))"

subsection \<open>Notions used to state the properties\<close>

text \<open>The positions of the ten fields of an annotation row that lines 298 to 303 convert.\<close>

definition read_fields :: "nat list" where
  "read_fields = [1, 2, 3, 10, 8, 9, 11, 12, 13, 14]"

definition has_row :: "string \<Rightarrow> string list list \<Rightarrow> bool" where
  "has_row tag rows = list_ex (\<lambda>row. row \<noteq> [] \<and> hd row = tag) rows"

text \<open>
  The faults of the files of one frame, as conditions on their content. A converted field
  of an annotation row is at fault when the row is too short to have it (\<^verbatim>\<open>DictReader\<close>
  then gives \<^verbatim>\<open>None\<close>) or when its text is not a number.
\<close>

definition field_fault :: "(string \<Rightarrow> real option) \<Rightarrow> string list \<Rightarrow> nat \<Rightarrow> bool" where
  "field_fault pf row k = (case field row k of None \<Rightarrow> True | Some s \<Rightarrow> pf s = None)"

text \<open>
  An annotation row is at fault when its class is configured and either the class has no
  entry in \<^verbatim>\<open>TYPE_ID_CONVERSION\<close> or one of the ten converted fields is at fault.
\<close>

definition label_row_fault :: "(string \<Rightarrow> real option) \<Rightarrow> string list \<Rightarrow> string list \<Rightarrow> bool" where
  "label_row_fault pf cls row =
     (row \<noteq> [] \<and> hd row \<in> set cls \<and>
      (TYPE_ID_CONVERSION (hd row) = None \<or> list_ex (field_fault pf row) read_fields))"

definition label_fault ::
  "(string \<Rightarrow> real option) \<Rightarrow> string list \<Rightarrow> string list list \<Rightarrow> bool" where
  "label_fault pf cls rows = list_ex (label_row_fault pf cls) rows"

text \<open>
  The rows of configured classes are well shaped when their class has an entry in the
  table and they have all fifteen fields: the only fault left to such a row is malformed
  numeric text.
\<close>

definition well_shaped :: "string list \<Rightarrow> string list list \<Rightarrow> bool" where
  "well_shaped cls rows =
     list_all (\<lambda>row. row \<noteq> [] \<and> hd row \<in> set cls \<longrightarrow>
                      TYPE_ID_CONVERSION (hd row) \<noteq> None \<and> 15 \<le> length row) rows"

text \<open>
  The rows of the calibration file that the loop of lines 308 to 318 can reach: those up
  to and including the first \<^verbatim>\<open>P3:\<close> row.
\<close>

definition calib_scanned :: "string list list \<Rightarrow> string list list" where
  "calib_scanned rows =
     takeWhile (\<lambda>row. \<not> (row \<noteq> [] \<and> hd row = ''P3:'')) rows @
     take 1 (dropWhile (\<lambda>row. \<not> (row \<noteq> [] \<and> hd row = ''P3:'')) rows)"

text \<open>
  A calibration row is at fault when it is empty, or is tagged \<^verbatim>\<open>P2:\<close> or \<^verbatim>\<open>P3:\<close> and
  does not hold exactly twelve values, each of them a number.
\<close>

definition calib_row_fault :: "(string \<Rightarrow> real option) \<Rightarrow> string list \<Rightarrow> bool" where
  "calib_row_fault pf row =
     (row = [] \<or>
      ((hd row = ''P2:'' \<or> hd row = ''P3:'') \<and>
       (length (tl row) \<noteq> 12 \<or> list_ex (\<lambda>v. pf v = None) (tl row))))"

definition calib_fault :: "(string \<Rightarrow> real option) \<Rightarrow> string list list \<Rightarrow> bool" where
  "calib_fault pf rows = list_ex (calib_row_fault pf) (calib_scanned rows)"

text \<open>
  The calibration file leaves \<^verbatim>\<open>P2\<close> or \<^verbatim>\<open>P3\<close> unbound: it has no \<^verbatim>\<open>P3:\<close> row, or no
  \<^verbatim>\<open>P2:\<close> row before the first \<^verbatim>\<open>P3:\<close> row.
\<close>

definition calib_rows_missing :: "string list list \<Rightarrow> bool" where
  "calib_rows_missing rows =
     (\<not> has_row ''P2:'' (calib_scanned rows) \<or> \<not> has_row ''P3:'' rows)"

text \<open>
  The part of an annotation file that the loader can read: the rows of configured
  classes, cut to the fifteen named fields, with the four fields of the 2D box
  (\<^verbatim>\<open>xmin\<close>, \<^verbatim>\<open>ymin\<close>, \<^verbatim>\<open>xmax\<close>, \<^verbatim>\<open>ymax\<close>, positions 4 to 7) blanked. The part of a
  calibration file that it can read: the empty rows and the \<^verbatim>\<open>P2:\<close> and \<^verbatim>\<open>P3:\<close> rows
  among the rows the loop can reach.
\<close>

definition relevant_labels :: "string list \<Rightarrow> string list list \<Rightarrow> string list list" where
  "relevant_labels cls rows =
     map (\<lambda>row. take 15 (row[4 := [], 5 := [], 6 := [], 7 := []]))
       (filter (\<lambda>row. row \<noteq> [] \<and> hd row \<in> set cls) rows)"

definition relevant_calib :: "string list list \<Rightarrow> string list list" where
  "relevant_calib rows =
     filter (\<lambda>row. row = [] \<or> hd row = ''P2:'' \<or> hd row = ''P3:'') (calib_scanned rows)"

text \<open>
  The same conditions for the files of the frame at index \<open>idx\<close>; the annotation file is
  read in training only.
\<close>

definition label_missing :: "dataset \<Rightarrow> files \<Rightarrow> nat \<Rightarrow> bool" where
  "label_missing ds fs idx = (is_train ds \<and> label_dir fs (label_files ds ! idx) = None)"

definition label_faulty :: "(string \<Rightarrow> real option) \<Rightarrow> dataset \<Rightarrow> files \<Rightarrow> nat \<Rightarrow> bool" where
  "label_faulty pf ds fs idx =
     (is_train ds \<and>
      (case label_dir fs (label_files ds ! idx) of
         None \<Rightarrow> False
       | Some rows \<Rightarrow> label_fault pf (classes ds) rows))"

definition labels_well_shaped :: "dataset \<Rightarrow> files \<Rightarrow> nat \<Rightarrow> bool" where
  "labels_well_shaped ds fs idx =
     (case label_dir fs (label_files ds ! idx) of
        None \<Rightarrow> True
      | Some rows \<Rightarrow> well_shaped (classes ds) rows)"

definition calib_missing :: "dataset \<Rightarrow> files \<Rightarrow> nat \<Rightarrow> bool" where
  "calib_missing ds fs idx = (calib_dir fs (label_files ds ! idx) = None)"

definition calib_faulty :: "(string \<Rightarrow> real option) \<Rightarrow> dataset \<Rightarrow> files \<Rightarrow> nat \<Rightarrow> bool" where
  "calib_faulty pf ds fs idx =
     (case calib_dir fs (label_files ds ! idx) of
        None \<Rightarrow> False
      | Some rows \<Rightarrow> calib_fault pf rows)"

definition calib_no_empty_row :: "dataset \<Rightarrow> files \<Rightarrow> nat \<Rightarrow> bool" where
  "calib_no_empty_row ds fs idx =
     (case calib_dir fs (label_files ds ! idx) of
        None \<Rightarrow> True
      | Some rows \<Rightarrow> [] \<notin> set (calib_scanned rows))"

definition calib_incomplete :: "dataset \<Rightarrow> files \<Rightarrow> nat \<Rightarrow> bool" where
  "calib_incomplete ds fs idx =
     (case calib_dir fs (label_files ds ! idx) of
        None \<Rightarrow> False
      | Some rows \<Rightarrow> calib_rows_missing rows)"

text \<open>
  Two sets of files agree on what the loader can read of the frame at index \<open>idx\<close>.
\<close>

definition same_relevant_content :: "dataset \<Rightarrow> files \<Rightarrow> files \<Rightarrow> nat \<Rightarrow> bool" where
  "same_relevant_content ds fs fs' idx =
     ((is_train ds \<longrightarrow>
         map_option (relevant_labels (classes ds)) (label_dir fs' (label_files ds ! idx)) =
         map_option (relevant_labels (classes ds)) (label_dir fs (label_files ds ! idx))) \<and>
      map_option relevant_calib (calib_dir fs' (label_files ds ! idx)) =
      map_option relevant_calib (calib_dir fs (label_files ds ! idx)))"

text \<open>An annotation is accepted when its keypoint passes the test of line 232.\<close>

definition accepted ::
  "coder \<Rightarrow> dataset \<Rightarrow> bool \<Rightarrow> matrix \<Rightarrow> region \<Rightarrow> matrix \<Rightarrow> annotation \<Rightarrow> bool" where
  "accepted co ds flipped trans_mat region P a =
     in_region region (keypoint co ds flipped trans_mat P a)"

text \<open>The slot an accepted annotation is encoded to.\<close>

definition object_slot ::
  "coder \<Rightarrow> dataset \<Rightarrow> bool \<Rightarrow> bool \<Rightarrow> matrix \<Rightarrow> matrix \<Rightarrow> annotation \<Rightarrow> slot" where
  "object_slot co ds flipped affine trans_mat P a =
     slot_of flipped affine a (encode_geometry co ds flipped trans_mat P a)"

text \<open>The two validity masks of a slot, as lines 248 and 249 set them.\<close>

definition valid_masks :: "bool \<Rightarrow> bool \<Rightarrow> slot \<Rightarrow> bool" where
  "valid_masks flipped affine s =
     (s_reg_mask s = (if affine then 0 else 1) \<and>
      s_flip_mask s = (if flipped \<and> \<not> affine then 1 else 0))"

text \<open>A sample is mosaic-composed when a second source was appended (lines 142, 143).\<close>

definition mosaic_composed :: "plan \<Rightarrow> bool" where
  "mosaic_composed pl = (length (pl_anns_list pl) = 2)"

text \<open>
  The annotations of one source with their positions, counted from \<open>i\<close>, and the values
  lines 212 to 230 compute for them.
\<close>

definition candidates ::
  "coder \<Rightarrow> dataset \<Rightarrow> bool \<Rightarrow> matrix \<Rightarrow> matrix \<Rightarrow> nat \<Rightarrow> annotation list \<Rightarrow>
   (nat \<times> annotation \<times> encoded) list" where
  "candidates co ds flipped trans_mat P i anns =
     map (\<lambda>(j, a). (j, a, encode_geometry co ds flipped trans_mat P a)) (List.enumerate i anns)"

text \<open>Running the writes of lines 235 to 253 for a list of positioned annotations, in order.\<close>

fun write_all ::
  "coder \<Rightarrow> bool \<Rightarrow> bool \<Rightarrow> (nat \<times> annotation \<times> encoded) list \<Rightarrow> buffers \<Rightarrow> error + buffers" where
  "write_all co flipped affine [] bufs = Inr bufs"
| "write_all co flipped affine ((i, a, e) # ws) bufs =
     (case write_object co flipped affine i a e bufs of
        Inl x \<Rightarrow> Inl x
      | Inr bufs' \<Rightarrow> write_all co flipped affine ws bufs')"

subsection \<open>Example data\<close>

text \<open>
  A reader of plain decimal literals (an optional minus sign, digits, an optional point
  and digits), on which it agrees with \<^verbatim>\<open>float()\<close>; it stands for \<^verbatim>\<open>float()\<close> in the
  examples, whose files hold such literals and the malformed text \<^verbatim>\<open>abc\<close> only.
\<close>

definition digit_of :: "char \<rightharpoonup> nat" where
  "digit_of = map_of [(CHR ''0'', 0), (CHR ''1'', 1), (CHR ''2'', 2), (CHR ''3'', 3),
     (CHR ''4'', 4), (CHR ''5'', 5), (CHR ''6'', 6), (CHR ''7'', 7), (CHR ''8'', 8),
     (CHR ''9'', 9)]"

fun digits_value :: "nat \<Rightarrow> string \<Rightarrow> nat option" where
  "digits_value acc [] = Some acc"
| "digits_value acc (c # cs) =
     (case digit_of c of None \<Rightarrow> None | Some d \<Rightarrow> digits_value (10 * acc + d) cs)"

definition decimal :: "string \<Rightarrow> real option" where
  "decimal s =
     (let neg = (s \<noteq> [] \<and> hd s = CHR ''-'');
          body = (if neg then tl s else s);
          ip = takeWhile (\<lambda>c. c \<noteq> CHR ''.'') body;
          fp = drop (Suc (length ip)) body in
      if ip = [] \<and> fp = [] then None
      else (case (digits_value 0 ip, digits_value 0 fp) of
              (Some a, Some b) \<Rightarrow>
                Some ((if neg then - 1 else 1) * (real a + real b / 10 ^ length fp))
            | _ \<Rightarrow> None))"

text \<open>
  A dataset of three frames. Frames 0 and 2 have images of 8 by 4 pixels, frame 1 one of
  16 by 4. The stand-in coder projects an object to the first two coordinates of its
  location and transforms points by the identity, so the locations in the label files
  are output-grid keypoints. Frame 0 has a car at (9, 1), outside the 8 by 4 output
  grid, a van (not a configured class) and a car at (1, 1); frame 2 has a car at (5, 1)
  and a cyclist at (6, 2). The first row of frame 0 has the malformed text \<^verbatim>\<open>abc\<close> in
  its \<^verbatim>\<open>xmin\<close> field.
\<close>

definition ex_calib :: "string list list" where
  "ex_calib =
     [[''P0:'', ''x''],
      [''P2:'', ''7'', ''0'', ''6'', ''0'', ''0'', ''7'', ''2'', ''0'', ''0'', ''0'', ''1'', ''0''],
      [''P3:'', ''7'', ''0'', ''6'', ''-3'', ''0'', ''7'', ''2'', ''0'', ''0'', ''0'', ''1'', ''0'']]"

definition ex_calib2 :: "string list list" where
  "ex_calib2 =
     [[''P2:'', ''9'', ''0'', ''5'', ''0'', ''0'', ''9'', ''2'', ''0'', ''0'', ''0'', ''1'', ''0''],
      [''P3:'', ''9'', ''0'', ''5'', ''-4'', ''0'', ''9'', ''2'', ''0'', ''0'', ''0'', ''1'', ''0'']]"

definition ex_row :: "string \<Rightarrow> string \<Rightarrow> string \<Rightarrow> string \<Rightarrow> string list" where
  "ex_row ty xmin lx ly =
     [ty, ''0'', ''0'', ''0'', xmin, ''0'', ''0'', ''0'', ''1.5'', ''1.6'', ''3.9'', lx, ly,
      ''20'', ''0'']"

definition ex_files :: files where
  "ex_files =
     \<lparr>image_dir = [''0.png'' \<mapsto> (8, 4), ''1.png'' \<mapsto> (16, 4), ''2.png'' \<mapsto> (8, 4)],
      image3_dir = [''0.png'' \<mapsto> (8, 4), ''1.png'' \<mapsto> (16, 4), ''2.png'' \<mapsto> (8, 4)],
      label_dir =
        [''0.txt'' \<mapsto> [ex_row ''Car'' ''abc'' ''9'' ''1'', ex_row ''Van'' ''0'' ''1'' ''1'',
                       ex_row ''Car'' ''0'' ''1'' ''1''],
         ''1.txt'' \<mapsto> [],
         ''2.txt'' \<mapsto> [ex_row ''Car'' ''0'' ''5'' ''1'', ex_row ''Cyclist'' ''0'' ''6'' ''2'']],
      calib_dir = [''0.txt'' \<mapsto> ex_calib, ''1.txt'' \<mapsto> ex_calib, ''2.txt'' \<mapsto> ex_calib2]\<rparr>"

definition ex_ds :: dataset where
  "ex_ds =
     \<lparr>is_train = True,
      image_files = [''0.png'', ''1.png'', ''2.png''],
      label_files = [''0.txt'', ''1.txt'', ''2.txt''],
      classes = [''Car'', ''Cyclist'', ''Pedestrian''],
      flip_prob = 0, aug_prob = 0, gaussian_prob = 0, color_prob = 0,
      shift_scale = (2 / 10, 4 / 10),
      right_prob = 0, mosaic_prob = 0,
      input_width = 32, input_height = 16, output_width = 8, output_height = 4,
      max_objs = 4, transforms = None\<rparr>"

text \<open>A generator whose every draw is one half and whose every pick is \<open>k\<close>.\<close>

definition ex_rng :: "nat \<Rightarrow> rng" where
  "ex_rng k = \<lparr>floats_tape = (\<lambda>_. 1 / 2), fpos = 0, picks_tape = (\<lambda>_. k), ppos = 0\<rparr>"

definition ex_coder :: coder where
  "ex_coder =
     \<lparr>get_transfrom_matrix = (\<lambda>cs wh. [[1, 0, 0], [0, 1, 0]]),
      affine_transform = (\<lambda>p m. p),
      gaussian_radius = (\<lambda>h w. 0),
      draw_umich_gaussian = (\<lambda>hm p r. hm),
      encode_label = (\<lambda>P rot_y dims locs.
         (case locs of (x, y, z) \<Rightarrow> ((x, y), (x - 1, y - 1, x + 1, y + 1), [[x, y, z]])))\<rparr>"

definition ex_ann :: "string \<Rightarrow> nat \<Rightarrow> real \<Rightarrow> real \<Rightarrow> annotation" where
  "ex_ann ty l x y =
     \<lparr>ann_class = ty, ann_label = l, ann_truncation = 0, ann_occlusion = 0, ann_alpha = 0,
      ann_dimensions = (39 / 10, 3 / 2, 16 / 10), ann_locations = (x, y, 20), ann_rot_y = 0\<rparr>"

definition ex_P2 :: matrix where
  "ex_P2 = [[7, 0, 6, 0], [0, 7, 2, 0], [0, 0, 1, 0]]"

definition ex_P3 :: matrix where
  "ex_P3 = [[7, 0, 6, - 3], [0, 7, 2, 0], [0, 0, 1, 0]]"

definition ex_P2' :: matrix where
  "ex_P2' = [[9, 0, 5, 0], [0, 9, 2, 0], [0, 0, 1, 0]]"

text \<open>The same dataset with mosaic composition switched on, and with room for one object.\<close>

definition ex_ds_mosaic :: dataset where
  "ex_ds_mosaic = ex_ds\<lparr>mosaic_prob := 1 / 10\<rparr>"

definition ex_ds_one :: dataset where
  "ex_ds_one = ex_ds\<lparr>max_objs := 1\<rparr>"

text \<open>
  The plans that the augmentation yields for frame 0: alone, and mosaic-composed with
  frame 2 at the split fraction one half.
\<close>

definition ex_plan_single :: plan where
  "ex_plan_single =
     \<lparr>pl_use_left = True, pl_flipped = False, pl_affine = False, pl_center = (4, 2),
      pl_size = (8, 4), pl_img_size = (8, 4),
      pl_anns_list = [[ex_ann ''Car'' 0 9 1, ex_ann ''Car'' 0 1 1]],
      pl_region_list = [(0, 8, 0, 4)],
      pl_P_list = [ex_P2],
      pl_P = ex_P2,
      pl_fetched = [0],
      pl_rng = (ex_rng 2)\<lparr>fpos := 3\<rparr>\<rparr>"

definition ex_plan_mosaic :: plan where
  "ex_plan_mosaic =
     \<lparr>pl_use_left = True, pl_flipped = False, pl_affine = False, pl_center = (4, 2),
      pl_size = (8, 4), pl_img_size = (8, 4),
      pl_anns_list = [[ex_ann ''Car'' 0 9 1, ex_ann ''Car'' 0 1 1],
                      [ex_ann ''Car'' 0 5 1, ex_ann ''Cyclist'' 1 6 2]],
      pl_region_list = [(0, 4, 0, 4), (4, 8, 0, 4)],
      pl_P_list = [ex_P2, ex_P2'],
      pl_P = ex_P2,
      pl_fetched = [0, 2],
      pl_rng = (ex_rng 2)\<lparr>fpos := 4, ppos := 1\<rparr>\<rparr>"

text \<open>The plan for frame 2 alone: both of its objects lie inside the output grid.\<close>

definition ex_plan_two :: plan where
  "ex_plan_two =
     ex_plan_single\<lparr>pl_anns_list := [[ex_ann ''Car'' 0 5 1, ex_ann ''Cyclist'' 1 6 2]],
                    pl_P_list := [ex_P2'], pl_P := ex_P2', pl_fetched := [2]\<rparr>"

definition ex_trans_mat :: matrix where
  "ex_trans_mat = [[1, 0, 0], [0, 1, 0]]"

text \<open>The slot of an example object of class \<open>l\<close> with keypoint \<open>(x, y)\<close>.\<close>

definition ex_slot :: "nat \<Rightarrow> int \<Rightarrow> int \<Rightarrow> slot" where
  "ex_slot l x y =
     \<lparr>s_cls_id = l, s_regression = [[real_of_int x, real_of_int y, 20]],
      s_proj_point = (x, y), s_p_offset = (0, 0),
      s_dimensions = (39 / 10, 3 / 2, 16 / 10),
      s_locations = (real_of_int x, real_of_int y, 20), s_roty = 0,
      s_reg_mask = 1, s_flip_mask = 0,
      s_regression_2d = (real_of_int x - 1, real_of_int y - 1, real_of_int x + 1,
                         real_of_int y + 1),
      s_p_2d_offset = (0, 0), s_p_2d_wh = (2, 2)\<rparr>"

definition ex_heat_map :: "real list list list" where
  "ex_heat_map = replicate 3 (replicate 4 (replicate 8 0))"

section \<open>Properties\<close>

subsection \<open>Auxiliary facts\<close>

lemmas ex_defs = ex_calib_def ex_calib2_def ex_row_def ex_files_def ex_ds_def ex_rng_def
  ex_coder_def ex_ann_def ex_P2_def ex_P3_def ex_P2'_def decimal_def digit_of_def
  ex_ds_mosaic_def ex_ds_one_def ex_plan_single_def ex_plan_mosaic_def ex_plan_two_def
  ex_trans_mat_def
  ex_slot_def ex_heat_map_def

lemmas loader_defs = load_annotations_def list_get_def open_file_def parse_annotation_def
  to_float_def field_def parse_matrix_def reshape_3_4_def local_var_def TYPE_ID_CONVERSION_def

lemmas augment_defs = augment_def choose_view_def flip_step_def affine_step_def mosaic_step_def
  random_random_def random_uniform_def random_choice_def num_samples_def full_region_def
  flip_x_def

lemmas assemble_defs = assemble_def zero_buffers_def encode_object_def encode_geometry_def
  write_object_def slot_of_def point_int_def trunc_def clip_def in_region_def num_classes_def
  zero_slot_def extend_P_def apply_transforms_def keypoint_def accepted_def object_slot_def

lemma bindE_simps [simp]: "bindE (Inl e) f = Inl e" "bindE (Inr x) f = f x"
  by (simp_all add: bindE_def)

lemma bindE_Inr_iff: "bindE m f = Inr y \<longleftrightarrow> (\<exists>x. m = Inr x \<and> f x = Inr y)"
  by (cases m) simp_all

lemma bindE_Inl_iff: "bindE m f = Inl e \<longleftrightarrow> m = Inl e \<or> (\<exists>x. m = Inr x \<and> f x = Inl e)"
  by (cases m) simp_all

lemma augment_Inr:
  assumes "augment pf ds fs idx g = Inr pl"
  shows "\<exists>anns P2 P3 name img c1 g2 g3 ft.
     load_annotations pf ds fs idx = Inr (anns, P2, P3) \<and>
     list_get (image_files ds) idx = Inr name \<and>
     open_file ((if pl_use_left pl then image_dir else image3_dir) fs) name = Inr img \<and>
     pl_use_left pl = fst (choose_view ds g) \<and>
     pl_img_size pl = img \<and>
     flip_step ds (pl_use_left pl) (real (fst img) / 2, real (snd img) / 2)
        (real (fst img), real (snd img)) (if pl_use_left pl then P2 else P3)
        (snd (choose_view ds g)) = Inr (pl_flipped pl, c1, pl_P pl, g2) \<and>
     affine_step ds c1 (real (fst img), real (snd img)) g2
        = Inr (pl_affine pl, pl_center pl, pl_size pl, g3) \<and>
     mosaic_step pf ds fs (pl_use_left pl) (pl_affine pl) (pl_flipped pl) img anns (pl_P pl) g3
        = Inr (pl_anns_list pl, pl_region_list pl, pl_P_list pl, ft, pl_rng pl) \<and>
     pl_fetched pl = idx # ft"
  using assms
  unfolding augment_def Let_def
  by (auto simp: bindE_Inr_iff split_beta)

lemma flip_step_True:
  assumes "flip_step ds ul c sz P g = Inr (True, c', P', g')"
  shows "is_train ds \<and> ul \<and> fst (random_random g) < flip_prob ds \<and>
         c' = (flip_x (fst sz) (fst c), snd c) \<and>
         P' = P[0 := (P ! 0)[2 := flip_x (fst sz) (P ! 0 ! 2)]] \<and>
         0 < length P \<and> 2 < length (P ! 0)"
  using assms unfolding flip_step_def Let_def
  by (auto simp: split_beta split: if_splits)

lemma flip_step_False:
  assumes "flip_step ds ul c sz P g = Inr (False, c', P', g')"
  shows "c' = c \<and> P' = P"
  using assms unfolding flip_step_def Let_def
  by (auto simp: split_beta split: if_splits)

subsection \<open>Horizontal flip\<close>

lemma flip_x_involution: "flip_x w (flip_x w c) = c"
  by (simp add: flip_x_def)

lemmas f32_defs = round32_def exponent2_def compute_floorlog round_half_even_def Let_def pow2_def

lemma round_half_even_of_int: "round_half_even (of_int z) = z"
  by (simp add: round_half_even_def)

lemma round32_of_int:
  assumes "\<bar>n\<bar> < 2 ^ 24"
  shows "round32 (of_int n) = of_int n"
proof (cases "n = 0")
  case True
  then show ?thesis by (simp add: round32_def)
next
  case False
  define m where "m = nat \<bar>n\<bar>"
  define k where "k = floorlog 2 m"
  from False have m0: "0 < m" by (simp add: m_def)
  from assms have "m < 2 ^ 24"
    by (simp add: m_def nat_less_iff)
  then have k24: "k \<le> 24" by (simp add: k_def floorlog_le_iff)
  from m0 have k1: "1 \<le> k" by (simp add: k_def floorlog_def)
  from False have "1 \<le> \<bar>n\<bar>" by simp
  then have "(1::real) \<le> of_int \<bar>n\<bar>" by (simp only: of_int_1_le_iff)
  then have ge1: "1 \<le> \<bar>real_of_int n\<bar>" by simp
  have fl: "nat \<lfloor>\<bar>real_of_int n\<bar>\<rfloor> = m"
    unfolding m_def by (metis floor_of_int of_int_abs)
  have e: "exponent2 (of_int n) = int k - 1"
    using ge1 fl by (simp add: exponent2_def k_def)
  define j where "j = 24 - k"
  have "max (exponent2 (of_int n)) (- 126) - 23 = - int j"
    using e k1 k24 by (simp add: j_def)
  then have u: "pow2 (max (exponent2 (of_int n)) (- 126) - 23) = 1 / 2 ^ j"
    by (simp add: pow2_def)
  have "real_of_int n / (1 / 2 ^ j) = of_int (n * 2 ^ j)" by simp
  then have r: "round_half_even (real_of_int n / (1 / 2 ^ j)) = n * 2 ^ j"
    by (simp only: round_half_even_of_int)
  have "round32 (of_int n) = of_int (n * 2 ^ j) * (1 / 2 ^ j)"
    using False unfolding round32_def Let_def u r by simp
  then show ?thesis by simp
qed

lemma flip_x32_integers:
  assumes "\<bar>a\<bar> < 2 ^ 23" "\<bar>b\<bar> < 2 ^ 23"
  shows "flip_x32 (of_int a) (flip_x32 (of_int a) (of_int b)) = of_int b"
proof -
  have 1: "round32 (of_int a - of_int b) = of_int (a - b)"
    using round32_of_int[of "a - b"] assms by simp
  have 2: "round32 (of_int (a - b) - 1) = of_int (a - b - 1)"
    using round32_of_int[of "a - b - 1"] assms by simp
  have 3: "round32 (of_int a - of_int (a - b - 1)) = of_int (b + 1)"
    using round32_of_int[of "b + 1"] assms by simp
  have 4: "round32 (of_int (b + 1) - 1) = of_int b"
    using round32_of_int[of b] assms by simp
  show ?thesis
    unfolding flip_x32_def 1 2 3 4 ..
qed

lemma flip_x32_exact:
  assumes "round32 (w - c) = w - c" "round32 (w - c - 1) = w - c - 1"
    "round32 (c + 1) = c + 1" "round32 c = c"
  shows "flip_x32 w (flip_x32 w c) = c"
proof -
  have "flip_x32 w c = w - c - 1"
    by (simp add: flip_x32_def assms)
  moreover have "w - (w - c - 1) = c + 1" by simp
  ultimately show ?thesis
    by (simp add: flip_x32_def assms)
qed


text \<open>
  Claim C8 says that the flip transform \<open>c \<mapsto> width - c - 1\<close> is an involution for every
  width and every coordinate. In the \<^verbatim>\<open>float32\<close> arithmetic of lines 116 and 117 it is
  not: below, the width is 1242 and the coordinate is the \<^verbatim>\<open>float32\<close> nearest to 100.3;
  the first subtraction of the first flip is rounded, and the second flip returns
  100.300048828125.
\<close>

theorem flip_float32_counterexample:
  "round32 1242 = 1242 \<and>
   round32 (6573261 / 65536) = 6573261 / 65536 \<and>
   round32 (1242 - 6573261 / 65536) = 4676403 / 4096 \<and>
   flip_x32 1242 (6573261 / 65536) = 4672307 / 4096 \<and>
   flip_x32 1242 (flip_x32 1242 (6573261 / 65536)) = 410829 / 4096 \<and>
   (410829 / 4096 :: real) \<noteq> 6573261 / 65536"
proof -
  have a: "flip_x32 1242 (6573261 / 65536) = 4672307 / 4096"
    by (simp add: flip_x32_def f32_defs)
  have b: "flip_x32 1242 (flip_x32 1242 (6573261 / 65536)) = 410829 / 4096"
    by (simp add: a) (simp add: flip_x32_def f32_defs)
  have c: "round32 1242 = 1242" "round32 (6573261 / 65536) = 6573261 / 65536"
    "round32 (1242 - 6573261 / 65536) = 4676403 / 4096"
    by (simp_all add: f32_defs)
  from a b c show ?thesis by simp
qed

text \<open>
  Claim C8, amended. In the \<^verbatim>\<open>float32\<close> arithmetic of the code, applying the flip
  transform twice returns the original value when the width and the coordinate are whole
  numbers below \<open>2 ^ 23\<close> in magnitude, and more generally whenever none of the values
  \<open>width - c\<close>, \<open>width - c - 1\<close>, \<open>c + 1\<close> and \<open>c\<close> is changed by rounding.
\<close>

theorem flip_float32_involution:
  "(\<bar>a\<bar> < 2 ^ 23 \<and> \<bar>b\<bar> < 2 ^ 23 \<longrightarrow>
      flip_x32 (of_int a) (flip_x32 (of_int a) (of_int b)) = of_int b) \<and>
   (round32 (w - c) = w - c \<and> round32 (w - c - 1) = w - c - 1 \<and>
    round32 (c + 1) = c + 1 \<and> round32 c = c \<longrightarrow>
      flip_x32 w (flip_x32 w c) = c)"
  by (rule conjI; rule impI) (elim conjE, rule flip_x32_integers, assumption+,
      elim conjE, rule flip_x32_exact)

theorem flip_float32_involution_witness:
  "flip_x32 (of_int 1242) (flip_x32 (of_int 1242) (of_int 621)) = of_int 621 \<and>
   round32 (1242 - 1219 / 2) = 1242 - 1219 / 2 \<and>
   round32 (1242 - 1219 / 2 - 1) = 1242 - 1219 / 2 - 1 \<and>
   round32 (1219 / 2 + 1) = 1219 / 2 + 1 \<and>
   round32 (1219 / 2) = 1219 / 2 \<and>
   flip_x32 1242 (flip_x32 1242 (1219 / 2)) = 1219 / 2"
proof -
  have h: "\<bar>1242 :: int\<bar> < 2 ^ 23" "\<bar>621 :: int\<bar> < 2 ^ 23"
    by simp_all
  have r: "round32 (1242 - 1219 / 2) = 1242 - 1219 / 2"
    "round32 (1242 - 1219 / 2 - 1) = 1242 - 1219 / 2 - 1"
    "round32 (1219 / 2 + 1) = 1219 / 2 + 1"
    "round32 (1219 / 2) = 1219 / 2"
    by (simp_all add: f32_defs)
  note T1 = flip_float32_involution[of 1242 621 0 0, THEN conjunct1, THEN mp]
  note T2 = flip_float32_involution[of 0 0 1242 "1219 / 2", THEN conjunct2, THEN mp]
  from h have 1: "flip_x32 (of_int 1242) (flip_x32 (of_int 1242) (of_int 621)) = of_int 621"
    by (intro T1) simp
  from r have 2: "flip_x32 1242 (flip_x32 1242 (1219 / 2)) = 1219 / 2"
    by (intro T2) simp
  from 1 2 r show ?thesis by blast
qed






subsection \<open>Mosaic composition and the exposed calibration matrix\<close>

lemma mosaic_step_cases:
  assumes "mosaic_step pf ds fs ul af fl img anns P g = Inr (al, rl, Pl, ft, g')"
  obtains
    (none) "\<not> (is_train ds \<and> 0 < mosaic_prob ds \<and> \<not> af \<and> \<not> fl)"
      "al = [anns]" "rl = [full_region ds]" "Pl = [P]" "ft = []" "g' = g"
  | (mismatch) j manns mP2 mP3 name mimg g1 where
      "is_train ds" "0 < mosaic_prob ds" "\<not> af" "\<not> fl"
      "random_choice [0..<num_samples ds] g = Inr (j, g1)"
      "load_annotations pf ds fs j = Inr (manns, mP2, mP3)"
      "list_get (image_files ds) j = Inr name"
      "open_file ((if ul then image_dir else image3_dir) fs) name = Inr mimg"
      "mimg \<noteq> img"
      "al = [anns]" "rl = [full_region ds]" "Pl = [P]" "ft = [j]" "g' = g1"
  | (composed) j manns mP2 mP3 name g1 where
      "is_train ds" "0 < mosaic_prob ds" "\<not> af" "\<not> fl"
      "random_choice [0..<num_samples ds] g = Inr (j, g1)"
      "load_annotations pf ds fs j = Inr (manns, mP2, mP3)"
      "list_get (image_files ds) j = Inr name"
      "open_file ((if ul then image_dir else image3_dir) fs) name = Inr img"
      "al = [anns, manns]"
      "rl = [(0, fst (random_uniform (3 / 10) (7 / 10) g1) * real_of_int (output_width ds), 0,
              real_of_int (output_height ds)),
             (fst (random_uniform (3 / 10) (7 / 10) g1) * real_of_int (output_width ds),
              real_of_int (output_width ds), 0, real_of_int (output_height ds))]"
      "Pl = [P, if ul then mP2 else mP3]" "ft = [j]"
      "g' = snd (random_uniform (3 / 10) (7 / 10) g1)"
proof (cases "is_train ds \<and> 0 < mosaic_prob ds \<and> \<not> af \<and> \<not> fl")
  case False
  with assms have "al = [anns]" "rl = [full_region ds]" "Pl = [P]" "ft = []" "g' = g"
    by (auto simp: mosaic_step_def)
  with False show ?thesis by (rule none)
next
  case True
  note ms = assms[unfolded mosaic_step_def]
  obtain j g1 where c: "random_choice [0..<num_samples ds] g = Inr (j, g1)"
    using ms True by (cases "random_choice [0..<num_samples ds] g") auto
  obtain manns mP2 mP3 where l: "load_annotations pf ds fs j = Inr (manns, mP2, mP3)"
    using ms True c by (cases "load_annotations pf ds fs j") auto
  obtain name where n: "list_get (image_files ds) j = Inr name"
    using ms True c l by (cases "list_get (image_files ds) j") auto
  obtain mimg where
    op: "open_file ((if ul then image_dir else image3_dir) fs) name = Inr mimg"
    using ms True c l n
    by (cases "open_file ((if ul then image_dir else image3_dir) fs) name") auto
  show ?thesis
  proof (cases "mimg = img")
    case False
    with ms True c l n op have "al = [anns]" "rl = [full_region ds]" "Pl = [P]" "ft = [j]" "g' = g1"
      by auto
    with True c l n op False show ?thesis by (intro mismatch[of j g1 manns mP2 mP3 name mimg]) auto
  next
    case eq: True
    with ms True c l n op have "al = [anns, manns]"
      "rl = [(0, fst (random_uniform (3 / 10) (7 / 10) g1) * real_of_int (output_width ds), 0,
              real_of_int (output_height ds)),
             (fst (random_uniform (3 / 10) (7 / 10) g1) * real_of_int (output_width ds),
              real_of_int (output_width ds), 0, real_of_int (output_height ds))]"
      "Pl = [P, if ul then mP2 else mP3]" "ft = [j]"
      "g' = snd (random_uniform (3 / 10) (7 / 10) g1)"
      by (auto simp: Let_def split_beta)
    with True c l n op eq show ?thesis by (intro composed[of j g1 manns mP2 mP3 name]) auto
  qed
qed


lemma getitem_train_Inr:
  assumes "is_train ds" "transforms ds = None" "getitem co pf ds fs idx g = Inr (img, tgt)"
  shows "\<exists>pl b P P'. augment pf ds fs idx g = Inr pl \<and>
     assemble co ds pl (get_transfrom_matrix co (pl_center pl, pl_size pl)
                        (output_width ds, output_height ds)) = Inr (b, P) \<and>
     extend_P P = Inr P' \<and>
     tgt = TrainTarget (input_width ds, input_height ds) b
            (get_transfrom_matrix co (pl_center pl, pl_size pl)
                        (output_width ds, output_height ds)) P'"
proof -
  from assms obtain pl where a: "augment pf ds fs idx g = Inr pl"
    by (cases "augment pf ds fs idx g") (auto simp: getitem_def)
  let ?tm = "get_transfrom_matrix co (pl_center pl, pl_size pl) (output_width ds, output_height ds)"
  from assms a obtain b P where s: "assemble co ds pl ?tm = Inr (b, P)"
    by (cases "assemble co ds pl ?tm") (auto simp: getitem_def Let_def)
  from assms a s obtain P' where e: "extend_P P = Inr P'"
    by (cases "extend_P P") (auto simp: getitem_def Let_def)
  from assms a s e have "tgt = TrainTarget (input_width ds, input_height ds) b ?tm P'"
    by (auto simp: getitem_def Let_def apply_transforms_def)
  with a s e show ?thesis by blast
qed

lemma encode_sources_P:
  "encode_sources co ds pl tm js st = Inr (b, P) \<Longrightarrow>
     P = (if js = [] then snd st else pl_P_list pl ! last js) \<and>
     (\<forall>j \<in> set js. j < length (pl_P_list pl))"
proof (induction js arbitrary: st)
  case Nil
  then show ?case by simp
next
  case (Cons j js)
  from Cons.prems obtain b' where
    j: "j < length (pl_P_list pl)" and
    r: "encode_sources co ds pl tm js (b', pl_P_list pl ! j) = Inr (b, P)"
    by (auto simp: list_get_def split: sum.splits if_splits)
  from Cons.IH[OF r] j show ?case by auto
qed

lemma assemble_P:
  assumes "assemble co ds pl tm = Inr (b, P)"
  shows "P = (if pl_anns_list pl = [] then pl_P pl else pl_P_list pl ! (length (pl_anns_list pl) - 1))"
proof -
  from assms obtain z where
    "encode_sources co ds pl tm [0..<length (pl_anns_list pl)] (z, pl_P pl) = Inr (b, P)"
    by (auto simp: assemble_def bindE_Inr_iff)
  from encode_sources_P[OF this] show ?thesis
    by (cases "pl_anns_list pl = []") (simp_all add: last_upt)
qed

lemma augment_sources:
  assumes a: "augment pf ds fs idx g = Inr pl"
  shows "(\<not> mosaic_composed pl \<and> length (pl_anns_list pl) = 1 \<and> pl_P_list pl = [pl_P pl] \<and>
          pl_region_list pl = [full_region ds] \<and>
          (pl_fetched pl = [idx] \<or> (\<exists>j. pl_fetched pl = [idx, j]))) \<or>
         (mosaic_composed pl \<and> is_train ds \<and> \<not> pl_affine pl \<and> \<not> pl_flipped pl \<and>
          (\<exists>j manns mP2 mP3 lr.
             pl_fetched pl = [idx, j] \<and>
             load_annotations pf ds fs j = Inr (manns, mP2, mP3) \<and>
             length (pl_anns_list pl) = 2 \<and> pl_anns_list pl ! 1 = manns \<and>
             pl_P_list pl = [pl_P pl, if pl_use_left pl then mP2 else mP3] \<and>
             pl_region_list pl =
               [(0, lr * real_of_int (output_width ds), 0, real_of_int (output_height ds)),
                (lr * real_of_int (output_width ds), real_of_int (output_width ds), 0,
                 real_of_int (output_height ds))]))"
proof -
  from augment_Inr[OF a] obtain anns img g3 ft where
    m: "mosaic_step pf ds fs (pl_use_left pl) (pl_affine pl) (pl_flipped pl) img anns (pl_P pl) g3
        = Inr (pl_anns_list pl, pl_region_list pl, pl_P_list pl, ft, pl_rng pl)" and
    f: "pl_fetched pl = idx # ft"
    by blast
  from m show ?thesis
  proof (cases rule: mosaic_step_cases)
    case none
    with f show ?thesis by (simp add: mosaic_composed_def)
  next
    case (mismatch j manns mP2 mP3 name mimg g1)
    with f show ?thesis by (simp add: mosaic_composed_def)
  next
    case (composed j manns mP2 mP3 name g1)
    with f show ?thesis
      by (intro disjI2) (auto simp: mosaic_composed_def)
  qed
qed

lemma ex_augment_single:
  "augment decimal ex_ds ex_files 0 (ex_rng 2) = Inr ex_plan_single"
  by (simp add: ex_defs loader_defs augment_defs Let_def)

lemma ex_augment_mosaic:
  "augment decimal ex_ds_mosaic ex_files 0 (ex_rng 2) = Inr ex_plan_mosaic"
  by (simp add: ex_defs loader_defs augment_defs Let_def)

lemma ex_augment_mismatch:
  "augment decimal ex_ds_mosaic ex_files 0 (ex_rng 1) =
     Inr (ex_plan_single\<lparr>pl_fetched := [0, 1], pl_rng := (ex_rng 1)\<lparr>fpos := 3, ppos := 1\<rparr>\<rparr>)"
  by (simp add: ex_defs loader_defs augment_defs Let_def)

lemma ex_assemble_single:
  "assemble ex_coder ex_ds ex_plan_single ex_trans_mat =
     Inr (\<lparr>heat_map = ex_heat_map, slots = [zero_slot, ex_slot 0 1 1, zero_slot, zero_slot]\<rparr>, ex_P2)"
  by (simp add: ex_defs assemble_defs list_get_def Let_def upt_rec eval_nat_numeral)

lemma ex_assemble_mosaic:
  "assemble ex_coder ex_ds_mosaic ex_plan_mosaic ex_trans_mat =
     Inr (\<lparr>heat_map = ex_heat_map, slots = [ex_slot 0 5 1, ex_slot 1 6 2, zero_slot, zero_slot]\<rparr>, ex_P2')"
  by (simp add: ex_defs assemble_defs list_get_def Let_def upt_rec eval_nat_numeral)

lemma ex_getitem_mosaic:
  "getitem ex_coder decimal ex_ds_mosaic ex_files 0 (ex_rng 2) =
     Inr ((32, 16), TrainTarget (32, 16)
        \<lparr>heat_map = ex_heat_map, slots = [ex_slot 0 5 1, ex_slot 1 6 2, zero_slot, zero_slot]\<rparr>
        ex_trans_mat (ex_P2' @ [[0, 0, 0, 1]]))"
proof -
  have tm: "get_transfrom_matrix ex_coder (pl_center ex_plan_mosaic, pl_size ex_plan_mosaic)
              (output_width ex_ds_mosaic, output_height ex_ds_mosaic) = ex_trans_mat"
    by (simp add: ex_coder_def ex_trans_mat_def)
  have e: "extend_P ex_P2' = Inr (ex_P2' @ [[0, 0, 0, 1]])"
    by (simp add: extend_P_def ex_P2'_def)
  have d: "is_train ex_ds_mosaic" "transforms ex_ds_mosaic = None"
    "input_width ex_ds_mosaic = 32" "input_height ex_ds_mosaic = 16"
    by (simp_all add: ex_ds_mosaic_def ex_ds_def)
  show ?thesis
    by (simp add: getitem_def ex_augment_mosaic tm ex_assemble_mosaic e d apply_transforms_def Let_def)
qed


text \<open>
  Claim C10. For a training sample the matrix in the target's \<^verbatim>\<open>P\<close> field is the
  extension of the last entry of the per-source matrix list: for a mosaic-composed
  sample that is the matrix of the mosaic partner, as the loader returns it for the
  partner's index (\<open>P2\<close> on the left view, \<open>P3\<close> on the right), not the matrix of the
  primary view; for a sample that is not mosaic-composed it is the primary view's active
  matrix. (For a target returned as assembled, that is with no \<^verbatim>\<open>transforms\<close> hook.)
\<close>

theorem target_P_from_last_source:
  assumes "is_train ds" and "transforms ds = None"
    and "getitem co pf ds fs idx g = Inr (img, tgt)"
  shows "\<exists>pl. augment pf ds fs idx g = Inr pl \<and>
           extend_P (last (pl_P_list pl)) = Inr (target_P tgt) \<and>
           (if mosaic_composed pl then
              (\<exists>j manns mP2 mP3.
                 pl_fetched pl = [idx, j] \<and>
                 load_annotations pf ds fs j = Inr (manns, mP2, mP3) \<and>
                 last (pl_P_list pl) = (if pl_use_left pl then mP2 else mP3))
            else last (pl_P_list pl) = pl_P pl)"
proof -
  from getitem_train_Inr[OF assms] obtain pl b P P' tm where
    a: "augment pf ds fs idx g = Inr pl" and
    s: "assemble co ds pl tm = Inr (b, P)" and
    e: "extend_P P = Inr P'" and
    t: "tgt = TrainTarget (input_width ds, input_height ds) b tm P'"
    by blast
  from augment_sources[OF a] have P: "P = last (pl_P_list pl)"
    using assemble_P[OF s] by (auto simp: mosaic_composed_def)
  have "(if mosaic_composed pl then
              (\<exists>j manns mP2 mP3.
                 pl_fetched pl = [idx, j] \<and>
                 load_annotations pf ds fs j = Inr (manns, mP2, mP3) \<and>
                 last (pl_P_list pl) = (if pl_use_left pl then mP2 else mP3))
            else last (pl_P_list pl) = pl_P pl)"
  proof (cases "mosaic_composed pl")
    case True
    with augment_sources[OF a] obtain j manns mP2 mP3 where
      "pl_fetched pl = [idx, j]" "load_annotations pf ds fs j = Inr (manns, mP2, mP3)"
      "pl_P_list pl = [pl_P pl, if pl_use_left pl then mP2 else mP3]"
      by blast
    moreover from this have "last (pl_P_list pl) = (if pl_use_left pl then mP2 else mP3)"
      by simp
    ultimately show ?thesis using True by (simp only: if_True) blast
  next
    case False
    with augment_sources[OF a] have "pl_P_list pl = [pl_P pl]" by blast
    with False show ?thesis by simp
  qed
  with a e t P show ?thesis by auto
qed


theorem target_P_from_last_source_witness:
  "is_train ex_ds_mosaic \<and> transforms ex_ds_mosaic = None \<and>
   getitem ex_coder decimal ex_ds_mosaic ex_files 0 (ex_rng 2) =
     Inr ((32, 16), TrainTarget (32, 16)
        \<lparr>heat_map = ex_heat_map, slots = [ex_slot 0 5 1, ex_slot 1 6 2, zero_slot, zero_slot]\<rparr>
        ex_trans_mat (ex_P2' @ [[0, 0, 0, 1]])) \<and>
   augment decimal ex_ds_mosaic ex_files 0 (ex_rng 2) = Inr ex_plan_mosaic \<and>
   mosaic_composed ex_plan_mosaic \<and>
   pl_P ex_plan_mosaic = ex_P2 \<and>
   extend_P (last (pl_P_list ex_plan_mosaic)) = Inr (ex_P2' @ [[0, 0, 0, 1]]) \<and>
   (\<exists>manns mP2 mP3.
      load_annotations decimal ex_ds_mosaic ex_files 2 = Inr (manns, mP2, mP3) \<and>
      last (pl_P_list ex_plan_mosaic) = mP2)"
proof -
  have d: "is_train ex_ds_mosaic" "transforms ex_ds_mosaic = None"
    by (simp_all add: ex_ds_mosaic_def ex_ds_def)
  have p: "mosaic_composed ex_plan_mosaic" "pl_P ex_plan_mosaic = ex_P2"
    "pl_use_left ex_plan_mosaic" "pl_fetched ex_plan_mosaic = [0, 2]"
    by (simp_all add: ex_plan_mosaic_def mosaic_composed_def)
  from target_P_from_last_source[OF d ex_getitem_mosaic] ex_augment_mosaic p d ex_getitem_mosaic
  show ?thesis by auto
qed

text \<open>
  Claim C3. Mosaic composition is attempted only when neither flip nor jitter was
  applied; the claim adds that a fresh random draw against the configured probability
  decides whether a second sample is fetched. Line 130 tests \<^verbatim>\<open>0 < self.mosaic_prob\<close>
  and makes no draw, unlike lines 92, 113, 120, 152 and 154. The evaluation below runs
  the augmentation with the mosaic probability one tenth and a generator whose every draw
  is one half: the partner, frame 2, is fetched and composed all the same, and the four
  draws consumed are those of the view, the flip, the jitter and the split fraction.
\<close>

theorem mosaic_attempted_without_draw:
  "mosaic_prob ex_ds_mosaic = 1 / 10 \<and>
   floats_tape (ex_rng 2) = (\<lambda>_. 1 / 2) \<and>
   augment decimal ex_ds_mosaic ex_files 0 (ex_rng 2) = Inr ex_plan_mosaic \<and>
   pl_fetched ex_plan_mosaic = [0, 2] \<and>
   mosaic_composed ex_plan_mosaic \<and>
   fpos (pl_rng ex_plan_mosaic) = 4"
  using ex_augment_mosaic
  by (simp add: ex_plan_mosaic_def mosaic_composed_def ex_rng_def ex_ds_mosaic_def ex_ds_def)

text \<open>
  Claim C4 says that a mosaic partner of mismatched resolution makes the fetch be retried
  with another random partner. It is not: below, frame 0 (8 by 4) draws frame 1 (16 by
  4) as partner; the run fetches frames 0 and 1 only, consumes a single pick of the
  generator, and returns the primary sample alone.
\<close>

theorem mosaic_mismatch_no_retry_counterexample:
  "image_dir ex_files ''0.png'' = Some (8, 4) \<and>
   image_dir ex_files ''1.png'' = Some (16, 4) \<and>
   augment decimal ex_ds_mosaic ex_files 0 (ex_rng 1) =
     Inr (ex_plan_single\<lparr>pl_fetched := [0, 1], pl_rng := (ex_rng 1)\<lparr>fpos := 3, ppos := 1\<rparr>\<rparr>) \<and>
   \<not> mosaic_composed (ex_plan_single\<lparr>pl_fetched := [0, 1],
                                       pl_rng := (ex_rng 1)\<lparr>fpos := 3, ppos := 1\<rparr>\<rparr>)"
  using ex_augment_mismatch
  by (simp add: ex_files_def ex_plan_single_def mosaic_composed_def)

lemma mosaic_step_mismatch:
  assumes "is_train ds" "0 < mosaic_prob ds" "\<not> affine" "\<not> flipped"
    "random_choice [0..<num_samples ds] g = Inr (j, g1)"
    "load_annotations pf ds fs j = Inr (manns, mP2, mP3)"
    "list_get (image_files ds) j = Inr name"
    "open_file ((if use_left then image_dir else image3_dir) fs) name = Inr mimg"
    "mimg \<noteq> img"
  shows "mosaic_step pf ds fs use_left affine flipped img anns P g =
           Inr ([anns], [full_region ds], [P], [j], g1)"
  using assms by (simp add: mosaic_step_def)

lemma augment_fetches:
  assumes "augment pf ds fs idx g = Inr pl"
  shows "(pl_fetched pl = [idx] \<or> (\<exists>j. pl_fetched pl = [idx, j])) \<and>
         (mosaic_composed pl \<longrightarrow>
            (\<exists>j manns mP2 mP3.
               pl_fetched pl = [idx, j] \<and>
               load_annotations pf ds fs j = Inr (manns, mP2, mP3) \<and>
               pl_anns_list pl ! 1 = manns))"
  using augment_sources[OF assms] by blast

text \<open>
  Claim C4, amended. When the partner that was drawn and fetched has an image of another
  size, the mosaic step raises nothing and composes nothing: it returns the primary
  source alone with the full output grid, having drawn one partner index. A run of the
  augmentation fetches at most one partner, whatever the sizes; and when it composes, the
  partner's annotations are those the loader returns from the files at that call, so
  nothing is kept from earlier calls.
\<close>

theorem mosaic_mismatch_skipped:
  "(is_train ds \<and> 0 < mosaic_prob ds \<and> \<not> affine \<and> \<not> flipped \<and>
    random_choice [0..<num_samples ds] g = Inr (j, g1) \<and>
    load_annotations pf ds fs j = Inr (manns, mP2, mP3) \<and>
    list_get (image_files ds) j = Inr name \<and>
    open_file ((if use_left then image_dir else image3_dir) fs) name = Inr mimg \<and>
    mimg \<noteq> img \<longrightarrow>
      mosaic_step pf ds fs use_left affine flipped img anns P g =
        Inr ([anns], [full_region ds], [P], [j], g1)) \<and>
   (augment pf ds fs idx g' = Inr pl \<longrightarrow>
      (pl_fetched pl = [idx] \<or> (\<exists>j. pl_fetched pl = [idx, j])) \<and>
      (mosaic_composed pl \<longrightarrow>
         (\<exists>j manns mP2 mP3.
            pl_fetched pl = [idx, j] \<and>
            load_annotations pf ds fs j = Inr (manns, mP2, mP3) \<and>
            pl_anns_list pl ! 1 = manns)))"
  by (rule conjI; rule impI) (elim conjE, rule mosaic_step_mismatch, assumption+, erule augment_fetches)

theorem mosaic_mismatch_skipped_witness:
  "mosaic_step decimal ex_ds_mosaic ex_files True False False (8, 4)
      [ex_ann ''Car'' 0 9 1, ex_ann ''Car'' 0 1 1] ex_P2 (ex_rng 1) =
     Inr ([[ex_ann ''Car'' 0 9 1, ex_ann ''Car'' 0 1 1]], [full_region ex_ds_mosaic], [ex_P2], [1],
          (ex_rng 1)\<lparr>ppos := 1\<rparr>) \<and>
   open_file (image_dir ex_files) ''1.png'' = Inr (16, 4) \<and>
   augment decimal ex_ds_mosaic ex_files 0 (ex_rng 2) = Inr ex_plan_mosaic \<and>
   pl_fetched ex_plan_mosaic = [0, 2] \<and>
   mosaic_composed ex_plan_mosaic \<and>
   (\<exists>mP2 mP3. load_annotations decimal ex_ds_mosaic ex_files 2
                 = Inr (pl_anns_list ex_plan_mosaic ! 1, mP2, mP3))"
proof -
  have h: "is_train ex_ds_mosaic" "0 < mosaic_prob ex_ds_mosaic"
    "random_choice [0..<num_samples ex_ds_mosaic] (ex_rng 1) = Inr (1, (ex_rng 1)\<lparr>ppos := 1\<rparr>)"
    "load_annotations decimal ex_ds_mosaic ex_files 1 = Inr ([], ex_P2, ex_P3)"
    "list_get (image_files ex_ds_mosaic) 1 = Inr ''1.png''"
    "open_file ((if True then image_dir else image3_dir) ex_files) ''1.png'' = Inr (16, 4)"
    "(16, 4) \<noteq> ((8, 4) :: nat \<times> nat)"
    by (simp_all add: ex_defs loader_defs random_choice_def num_samples_def upt_rec)
  have m: "mosaic_composed ex_plan_mosaic" "pl_fetched ex_plan_mosaic = [0, 2]"
    by (simp_all add: ex_plan_mosaic_def mosaic_composed_def)
  from mosaic_mismatch_skipped[of ex_ds_mosaic False False "ex_rng 1" 1 "(ex_rng 1)\<lparr>ppos := 1\<rparr>"
      decimal ex_files "[]" ex_P2 ex_P3 "''1.png''" True "(16, 4)" "(8, 4)"
      "[ex_ann ''Car'' 0 9 1, ex_ann ''Car'' 0 1 1]" ex_P2 0 "ex_rng 2" ex_plan_mosaic]
    h m ex_augment_mosaic
  show ?thesis by auto
qed

subsection \<open>The assembly loops\<close>

lemma write_object_Inr:
  assumes "write_object co fl af i a e b = Inr b'"
  shows "i < length (slots b) \<and> e_cls e < length (heat_map b) \<and>
         slots b' = (slots b)[i := slot_of fl af a e] \<and>
         length (heat_map b') = length (heat_map b)"
  using assms by (auto simp: write_object_def Let_def split: if_splits)

lemma write_object_Inl: "write_object co fl af i a e b = Inl x \<Longrightarrow> x = IndexError"
  by (auto simp: write_object_def Let_def split: if_splits)

lemma write_object_oob:
  "length (slots b) \<le> i \<Longrightarrow> write_object co fl af i a e b = Inl IndexError"
  by (auto simp: write_object_def Let_def)

lemma encode_object_Inr:
  assumes "encode_object co ds fl af tm r P i a b = Inr b'"
  shows "length (slots b') = length (slots b) \<and>
         length (heat_map b') = length (heat_map b) \<and>
         (if accepted co ds fl tm r P a
          then i < length (slots b) \<and>
               slots b' = (slots b)[i := object_slot co ds fl af tm P a]
          else b' = b)"
proof (cases "accepted co ds fl tm r P a")
  case True
  with assms have "write_object co fl af i a (encode_geometry co ds fl tm P a) b = Inr b'"
    by (simp add: encode_object_def accepted_def keypoint_def Let_def)
  from write_object_Inr[OF this] True show ?thesis
    by (simp add: object_slot_def)
next
  case False
  with assms show ?thesis
    by (simp add: encode_object_def accepted_def keypoint_def Let_def)
qed

lemma encode_object_Inl:
  "encode_object co ds fl af tm r P i a b = Inl x \<Longrightarrow> x = IndexError"
  by (auto simp: encode_object_def Let_def split: if_splits dest: write_object_Inl)

lemma encode_anns_Inl:
  "encode_anns co ds fl af tm r P i anns b = Inl x \<Longrightarrow> x = IndexError"
  by (induction anns arbitrary: i b) (auto split: sum.splits dest: encode_object_Inl)

lemma encode_anns_slots:
  assumes "encode_anns co ds fl af tm r P i anns b = Inr b'"
  shows "length (slots b') = length (slots b) \<and>
         length (heat_map b') = length (heat_map b) \<and>
         (\<forall>n < length (slots b).
            slots b' ! n =
              (if i \<le> n \<and> n < i + length anns \<and> accepted co ds fl tm r P (anns ! (n - i))
               then object_slot co ds fl af tm P (anns ! (n - i))
               else slots b ! n)) \<and>
         (\<forall>j < length anns. accepted co ds fl tm r P (anns ! j) \<longrightarrow> i + j < length (slots b))"
  using assms
proof (induction anns arbitrary: i b)
  case Nil
  then show ?case by auto
next
  case (Cons a as)
  from Cons.prems obtain b1 where
    e1: "encode_object co ds fl af tm r P i a b = Inr b1" and
    r1: "encode_anns co ds fl af tm r P (Suc i) as b1 = Inr b'"
    by (auto split: sum.splits)
  note O = encode_object_Inr[OF e1]
  note I = Cons.IH[OF r1]
  have len: "length (slots b') = length (slots b)" "length (heat_map b') = length (heat_map b)"
    using O I by simp_all
  have sl: "slots b' ! n =
              (if i \<le> n \<and> n < i + length (a # as) \<and> accepted co ds fl tm r P ((a # as) ! (n - i))
               then object_slot co ds fl af tm P ((a # as) ! (n - i))
               else slots b ! n)" if n: "n < length (slots b)" for n
  proof -
    from n O have n1: "n < length (slots b1)" by simp
    from I n1 have s: "slots b' ! n =
              (if Suc i \<le> n \<and> n < Suc i + length as \<and> accepted co ds fl tm r P (as ! (n - Suc i))
               then object_slot co ds fl af tm P (as ! (n - Suc i))
               else slots b1 ! n)" by blast
    show ?thesis
    proof (cases "n = i")
      case True
      with s O n show ?thesis by (auto split: if_splits)
    next
      case False
      have b1n: "slots b1 ! n = slots b ! n"
        using O False by (auto split: if_splits)
      show ?thesis
      proof (cases "i < n")
        case True
        then have "(a # as) ! (n - i) = as ! (n - Suc i)"
          by (simp add: nth_Cons')
        with s b1n True show ?thesis by auto
      next
        case F: False
        with False have "n < i" by simp
        with s b1n show ?thesis by auto
      qed
    qed
  qed
  have acc: "i + j < length (slots b)"
    if j: "j < length (a # as)" and a: "accepted co ds fl tm r P ((a # as) ! j)" for j
  proof (cases j)
    case 0
    with a O show ?thesis by (auto split: if_splits)
  next
    case (Suc j')
    with j a I O show ?thesis by auto
  qed
  from len sl acc show ?case by blast
qed

lemma object_slot_valid: "valid_masks fl af (object_slot co ds fl af tm P a)"
  by (simp add: valid_masks_def object_slot_def slot_of_def Let_def)

lemma encode_sources_inv:
  assumes "encode_sources co ds pl tm js st = Inr (b', P')"
  shows "length (slots b') = length (slots (fst st)) \<and>
     (\<forall>n < length (slots b').
        valid_masks (pl_flipped pl) (pl_affine pl) (slots (fst st) ! n) \<longrightarrow>
        valid_masks (pl_flipped pl) (pl_affine pl) (slots b' ! n)) \<and>
     (\<forall>k \<in> set js. \<forall>i < length (pl_anns_list pl ! k).
        accepted co ds (pl_flipped pl) tm (pl_region_list pl ! k) (pl_P_list pl ! k)
          (pl_anns_list pl ! k ! i) \<longrightarrow>
        i < length (slots b') \<and> valid_masks (pl_flipped pl) (pl_affine pl) (slots b' ! i))"
  using assms
proof (induction js arbitrary: st)
  case Nil
  then show ?case by simp
next
  case (Cons j js)
  let ?fl = "pl_flipped pl" and ?af = "pl_affine pl"
  let ?anns = "pl_anns_list pl ! j" and ?r = "pl_region_list pl ! j" and ?P = "pl_P_list pl ! j"
  from Cons.prems obtain b1 where
    e1: "encode_anns co ds ?fl ?af tm ?r ?P 0 ?anns (fst st) = Inr b1" and
    r1: "encode_sources co ds pl tm js (b1, ?P) = Inr (b', P')"
    by (auto simp: list_get_def split: sum.splits if_splits)
  note A = encode_anns_slots[OF e1]
  note I = Cons.IH[OF r1]
  have len: "length (slots b') = length (slots (fst st))"
    using A I by simp
  have pres1: "valid_masks ?fl ?af (slots b1 ! n)"
    if "n < length (slots b1)" "valid_masks ?fl ?af (slots (fst st) ! n)" for n
    using that A by (auto simp: object_slot_valid)
  have pres: "valid_masks ?fl ?af (slots b' ! n)"
    if "n < length (slots b')" "valid_masks ?fl ?af (slots (fst st) ! n)" for n
    using that pres1 I by simp
  have here: "i < length (slots b') \<and> valid_masks ?fl ?af (slots b' ! i)"
    if i: "i < length ?anns" and a: "accepted co ds ?fl tm ?r ?P (?anns ! i)" for i
  proof -
    from A i a have il: "i < length (slots (fst st))" by auto
    with A i a have "slots b1 ! i = object_slot co ds ?fl ?af tm ?P (?anns ! i)" by auto
    then have "valid_masks ?fl ?af (slots b1 ! i)" by (simp add: object_slot_valid)
    with I il A show ?thesis by simp
  qed
  from len pres here I show ?case by auto
qed

lemma encode_sources_Inl:
  "encode_sources co ds pl tm js st = Inl x \<Longrightarrow> x = IndexError"
  by (induction js arbitrary: st)
     (auto simp: list_get_def split: sum.splits if_splits dest: encode_anns_Inl)

lemma encode_sources_indices:
  "encode_sources co ds pl tm js st = Inr r \<Longrightarrow>
     \<forall>j \<in> set js. j < length (pl_anns_list pl) \<and> j < length (pl_region_list pl) \<and>
                  j < length (pl_P_list pl)"
  by (induction js arbitrary: st) (auto simp: list_get_def split: sum.splits if_splits)

lemma assemble_Inr:
  assumes "assemble co ds pl tm = Inr (b, P)"
  shows "\<exists>z. zero_buffers ds = Inr z \<and> slots z = replicate (max_objs ds) zero_slot \<and>
             encode_sources co ds pl tm [0..<length (pl_anns_list pl)] (z, pl_P pl) = Inr (b, P)"
  using assms
  by (auto simp: assemble_def bindE_Inr_iff zero_buffers_def split: if_splits)


lemma assemble_inv:
  assumes "assemble co ds pl tm = Inr (b, P)"
  shows "length (slots b) = max_objs ds \<and>
     (\<forall>k < length (pl_anns_list pl). \<forall>i < length (pl_anns_list pl ! k).
        accepted co ds (pl_flipped pl) tm (pl_region_list pl ! k) (pl_P_list pl ! k)
          (pl_anns_list pl ! k ! i) \<longrightarrow>
        i < max_objs ds \<and> valid_masks (pl_flipped pl) (pl_affine pl) (slots b ! i))"
proof -
  from assemble_Inr[OF assms] obtain z where
    z: "slots z = replicate (max_objs ds) zero_slot" and
    e: "encode_sources co ds pl tm [0..<length (pl_anns_list pl)] (z, pl_P pl) = Inr (b, P)"
    by blast
  from encode_sources_inv[OF e] z show ?thesis by auto
qed

text \<open>
  Claim C6. In the buffers that assembly returns, the slot of every accepted object
  (whatever its source) has regression-validity mask 0 when shift and scale jitter was
  applied to the sample and 1 when it was not, and flip-validity mask 1 exactly when the
  sample was flipped and not jittered.
\<close>

theorem validity_masks_of_accepted:
  assumes "assemble co ds pl tm = Inr (b, P)"
    and "k < length (pl_anns_list pl)"
    and "i < length (pl_anns_list pl ! k)"
    and "accepted co ds (pl_flipped pl) tm (pl_region_list pl ! k) (pl_P_list pl ! k)
           (pl_anns_list pl ! k ! i)"
  shows "i < length (slots b) \<and>
         reg_mask b ! i = (if pl_affine pl then 0 else 1) \<and>
         flip_mask b ! i = (if pl_flipped pl \<and> \<not> pl_affine pl then 1 else 0)"
proof -
  from assemble_inv[OF assms(1)] assms(2-4)
  have l: "length (slots b) = max_objs ds" and i: "i < max_objs ds"
    and v: "valid_masks (pl_flipped pl) (pl_affine pl) (slots b ! i)"
    by blast+
  from l i v show ?thesis
    by (simp add: reg_mask_def flip_mask_def valid_masks_def)
qed

lemma ex_assemble_jitter:
  "assemble ex_coder ex_ds (ex_plan_single\<lparr>pl_affine := True\<rparr>) ex_trans_mat =
     Inr (\<lparr>heat_map = ex_heat_map,
           slots = [zero_slot, (ex_slot 0 1 1)\<lparr>s_reg_mask := 0\<rparr>, zero_slot, zero_slot]\<rparr>, ex_P2)"
  by (simp add: ex_defs assemble_defs list_get_def Let_def upt_rec eval_nat_numeral)

theorem validity_masks_of_accepted_witness:
  "assemble ex_coder ex_ds (ex_plan_single\<lparr>pl_affine := True\<rparr>) ex_trans_mat =
     Inr (\<lparr>heat_map = ex_heat_map,
           slots = [zero_slot, (ex_slot 0 1 1)\<lparr>s_reg_mask := 0\<rparr>, zero_slot, zero_slot]\<rparr>, ex_P2) \<and>
   accepted ex_coder ex_ds False ex_trans_mat (0, 8, 0, 4) ex_P2 (ex_ann ''Car'' 0 1 1) \<and>
   reg_mask \<lparr>heat_map = ex_heat_map,
             slots = [zero_slot, (ex_slot 0 1 1)\<lparr>s_reg_mask := 0\<rparr>, zero_slot, zero_slot]\<rparr> ! 1 = 0 \<and>
   flip_mask \<lparr>heat_map = ex_heat_map,
             slots = [zero_slot, (ex_slot 0 1 1)\<lparr>s_reg_mask := 0\<rparr>, zero_slot, zero_slot]\<rparr> ! 1 = 0"
proof -
  let ?pl = "ex_plan_single\<lparr>pl_affine := True\<rparr>"
  have h: "(0::nat) < length (pl_anns_list ?pl)" "(1::nat) < length (pl_anns_list ?pl ! 0)"
    by (simp_all add: ex_plan_single_def)
  have a: "accepted ex_coder ex_ds (pl_flipped ?pl) ex_trans_mat (pl_region_list ?pl ! 0)
             (pl_P_list ?pl ! 0) (pl_anns_list ?pl ! 0 ! 1)"
    by (simp add: ex_defs assemble_defs Let_def)
  have a': "accepted ex_coder ex_ds False ex_trans_mat (0, 8, 0, 4) ex_P2 (ex_ann ''Car'' 0 1 1)"
    using a by (simp add: ex_plan_single_def)
  have p: "pl_affine ?pl" by simp
  note T = validity_masks_of_accepted[OF ex_assemble_jitter h(1) h(2) a]
  from T p have "reg_mask \<lparr>heat_map = ex_heat_map,
             slots = [zero_slot, (ex_slot 0 1 1)\<lparr>s_reg_mask := 0\<rparr>, zero_slot, zero_slot]\<rparr> ! 1 = 0"
    "flip_mask \<lparr>heat_map = ex_heat_map,
             slots = [zero_slot, (ex_slot 0 1 1)\<lparr>s_reg_mask := 0\<rparr>, zero_slot, zero_slot]\<rparr> ! 1 = 0"
    by simp_all
  with a' ex_assemble_jitter show ?thesis by blast
qed

subsection \<open>Capacity\<close>

lemma assemble_Inl:
  assumes "assemble co ds pl tm = Inl x" "0 \<le> output_height ds" "0 \<le> output_width ds"
  shows "x = IndexError"
  using assms
  by (auto simp: assemble_def zero_buffers_def bindE_Inl_iff dest: encode_sources_Inl)

lemma assemble_overflow:
  assumes "0 \<le> output_height ds" "0 \<le> output_width ds"
    and "k < length (pl_anns_list pl)" "i < length (pl_anns_list pl ! k)" "max_objs ds \<le> i"
    and "accepted co ds (pl_flipped pl) tm (pl_region_list pl ! k) (pl_P_list pl ! k)
           (pl_anns_list pl ! k ! i)"
  shows "assemble co ds pl tm = Inl IndexError"
proof (cases "assemble co ds pl tm")
  case (Inl x)
  with assemble_Inl[OF Inl assms(1,2)] show ?thesis by simp
next
  case (Inr r)
  obtain b P where "r = (b, P)" by (cases r)
  with Inr assemble_inv[of co ds pl tm b P] assms(3-6) have "i < max_objs ds" by blast
  with assms(5) show ?thesis by simp
qed

lemma assemble_counts:
  assumes "assemble co ds pl tm = Inr (b, P)"
  shows "length (slots b) = max_objs ds \<and>
     length (filter (\<lambda>m. m = 1) (reg_mask b)) \<le> max_objs ds \<and>
     length (filter (\<lambda>m. m = 1) (flip_mask b)) \<le> max_objs ds \<and>
     (\<forall>k < length (pl_anns_list pl). \<forall>i < length (pl_anns_list pl ! k).
        accepted co ds (pl_flipped pl) tm (pl_region_list pl ! k) (pl_P_list pl ! k)
          (pl_anns_list pl ! k ! i) \<longrightarrow> i < max_objs ds)"
proof -
  note I = assemble_inv[OF assms]
  have "length (filter (\<lambda>m. m = 1) (reg_mask b)) \<le> length (reg_mask b)"
    "length (filter (\<lambda>m. m = 1) (flip_mask b)) \<le> length (flip_mask b)"
    by (rule length_filter_le)+
  with I show ?thesis by (simp add: reg_mask_def flip_mask_def)
qed

lemma ex_augment_one:
  "augment decimal ex_ds_one ex_files 2 (ex_rng 2) = Inr ex_plan_two"
  by (simp add: ex_defs loader_defs augment_defs Let_def)

lemma ex_assemble_one:
  "assemble ex_coder ex_ds_one ex_plan_two ex_trans_mat = Inl IndexError"
  by (simp add: ex_defs assemble_defs list_get_def Let_def upt_rec eval_nat_numeral)

text \<open>
  Claim C2 says that objects accepted beyond \<^verbatim>\<open>max_objs\<close> are dropped silently, with no
  error. The source has no such guard: the writes of lines 241 to 253 index arrays of
  length \<^verbatim>\<open>max_objs\<close> with the position of the annotation. Below, with room for one
  object, frame 2 has two accepted objects and \<^verbatim>\<open>__getitem__\<close> raises
  \<^verbatim>\<open>IndexError\<close>.
\<close>

theorem silent_drop_counterexample:
  "max_objs ex_ds_one = 1 \<and>
   augment decimal ex_ds_one ex_files 2 (ex_rng 2) = Inr ex_plan_two \<and>
   accepted ex_coder ex_ds_one False ex_trans_mat (0, 8, 0, 4) ex_P2' (ex_ann ''Car'' 0 5 1) \<and>
   accepted ex_coder ex_ds_one False ex_trans_mat (0, 8, 0, 4) ex_P2' (ex_ann ''Cyclist'' 1 6 2) \<and>
   getitem ex_coder decimal ex_ds_one ex_files 2 (ex_rng 2) = Inl IndexError"
proof -
  have tm: "get_transfrom_matrix ex_coder (pl_center ex_plan_two, pl_size ex_plan_two)
              (output_width ex_ds_one, output_height ex_ds_one) = ex_trans_mat"
    by (simp add: ex_coder_def ex_trans_mat_def)
  have d: "is_train ex_ds_one" "max_objs ex_ds_one = 1"
    by (simp_all add: ex_ds_one_def ex_ds_def)
  have g: "getitem ex_coder decimal ex_ds_one ex_files 2 (ex_rng 2) = Inl IndexError"
    by (simp add: getitem_def ex_augment_one tm ex_assemble_one d Let_def)
  have a: "accepted ex_coder ex_ds_one False ex_trans_mat (0, 8, 0, 4) ex_P2' (ex_ann ''Car'' 0 5 1)"
    "accepted ex_coder ex_ds_one False ex_trans_mat (0, 8, 0, 4) ex_P2' (ex_ann ''Cyclist'' 1 6 2)"
    by (simp_all add: ex_defs assemble_defs Let_def)
  from d g a ex_augment_one show ?thesis by simp
qed

text \<open>
  Claim C2, amended. Whenever assembly returns buffers, they have \<^verbatim>\<open>max_objs\<close> slots,
  so the number of slots whose regression-validity (or flip-validity) mask is 1 never
  exceeds \<^verbatim>\<open>max_objs\<close>, and every accepted object had a position below \<^verbatim>\<open>max_objs\<close> in
  the list of its source. When an accepted object has a position at or beyond
  \<^verbatim>\<open>max_objs\<close>, assembly does not drop it: it raises \<^verbatim>\<open>IndexError\<close>.
\<close>

theorem capacity_overflow_raises:
  "(assemble co ds pl tm = Inr (b, P) \<longrightarrow>
      length (slots b) = max_objs ds \<and>
      length (filter (\<lambda>m. m = 1) (reg_mask b)) \<le> max_objs ds \<and>
      length (filter (\<lambda>m. m = 1) (flip_mask b)) \<le> max_objs ds \<and>
      (\<forall>k < length (pl_anns_list pl). \<forall>i < length (pl_anns_list pl ! k).
         accepted co ds (pl_flipped pl) tm (pl_region_list pl ! k) (pl_P_list pl ! k)
           (pl_anns_list pl ! k ! i) \<longrightarrow> i < max_objs ds)) \<and>
   (0 \<le> output_height ds \<and> 0 \<le> output_width ds \<and>
    k < length (pl_anns_list pl) \<and> i < length (pl_anns_list pl ! k) \<and> max_objs ds \<le> i \<and>
    accepted co ds (pl_flipped pl) tm (pl_region_list pl ! k) (pl_P_list pl ! k)
      (pl_anns_list pl ! k ! i) \<longrightarrow>
      assemble co ds pl tm = Inl IndexError)"
  by (rule conjI; rule impI) (erule assemble_counts, elim conjE, rule assemble_overflow)

theorem capacity_overflow_raises_witness:
  "assemble ex_coder ex_ds ex_plan_single ex_trans_mat =
     Inr (\<lparr>heat_map = ex_heat_map, slots = [zero_slot, ex_slot 0 1 1, zero_slot, zero_slot]\<rparr>, ex_P2) \<and>
   length (filter (\<lambda>m. m = 1)
     (reg_mask \<lparr>heat_map = ex_heat_map, slots = [zero_slot, ex_slot 0 1 1, zero_slot, zero_slot]\<rparr>))
     \<le> max_objs ex_ds \<and>
   (0::int) \<le> output_height ex_ds_one \<and> 0 \<le> output_width ex_ds_one \<and>
   (0::nat) < length (pl_anns_list ex_plan_two) \<and> (1::nat) < length (pl_anns_list ex_plan_two ! 0) \<and>
   max_objs ex_ds_one \<le> 1 \<and>
   accepted ex_coder ex_ds_one (pl_flipped ex_plan_two) ex_trans_mat (pl_region_list ex_plan_two ! 0)
     (pl_P_list ex_plan_two ! 0) (pl_anns_list ex_plan_two ! 0 ! 1) \<and>
   assemble ex_coder ex_ds_one ex_plan_two ex_trans_mat = Inl IndexError"
proof -
  have h: "(0::int) \<le> output_height ex_ds_one" "0 \<le> output_width ex_ds_one"
   "(0::nat) < length (pl_anns_list ex_plan_two)" "(1::nat) < length (pl_anns_list ex_plan_two ! 0)"
   "max_objs ex_ds_one \<le> 1"
    by (simp_all add: ex_plan_two_def ex_plan_single_def ex_ds_one_def ex_ds_def)
  have a: "accepted ex_coder ex_ds_one (pl_flipped ex_plan_two) ex_trans_mat (pl_region_list ex_plan_two ! 0)
     (pl_P_list ex_plan_two ! 0) (pl_anns_list ex_plan_two ! 0 ! 1)"
    by (simp add: ex_defs assemble_defs Let_def)
  note T1 = capacity_overflow_raises[of ex_coder ex_ds ex_plan_single ex_trans_mat
      "\<lparr>heat_map = ex_heat_map, slots = [zero_slot, ex_slot 0 1 1, zero_slot, zero_slot]\<rparr>" ex_P2 0 0]
  note T2 = capacity_overflow_raises[of ex_coder ex_ds_one ex_plan_two ex_trans_mat
      "\<lparr>heat_map = ex_heat_map, slots = []\<rparr>" ex_P2 0 1]
  from T1 ex_assemble_single have
    "length (filter (\<lambda>m. m = 1)
     (reg_mask \<lparr>heat_map = ex_heat_map, slots = [zero_slot, ex_slot 0 1 1, zero_slot, zero_slot]\<rparr>))
     \<le> max_objs ex_ds" by blast
  moreover from T2 h a have "assemble ex_coder ex_ds_one ex_plan_two ex_trans_mat = Inl IndexError"
    by blast
  ultimately show ?thesis using h a ex_assemble_single by blast
qed

subsection \<open>Slots\<close>

lemma encode_anns_position:
  assumes "encode_anns co ds fl af tm r P0 0 anns b0 = Inr b1"
    and "i < length anns" and "accepted co ds fl tm r P0 (anns ! i)"
  shows "i < length (slots b1) \<and> slots b1 ! i = object_slot co ds fl af tm P0 (anns ! i)"
proof -
  note A = encode_anns_slots[OF assms(1)]
  from A assms(2,3) have "i < length (slots b0)" by auto
  with A assms(2,3) show ?thesis by auto
qed

lemma assemble_single_source:
  assumes "assemble co ds pl tm = Inr (b, P)" and "length (pl_anns_list pl) = 1"
  shows "length (slots b) = max_objs ds \<and>
     (\<forall>n < max_objs ds.
        slots b ! n =
          (if n < length (pl_anns_list pl ! 0) \<and>
              accepted co ds (pl_flipped pl) tm (pl_region_list pl ! 0) (pl_P_list pl ! 0)
                (pl_anns_list pl ! 0 ! n)
           then object_slot co ds (pl_flipped pl) (pl_affine pl) tm (pl_P_list pl ! 0)
                  (pl_anns_list pl ! 0 ! n)
           else zero_slot))"
proof -
  from assemble_Inr[OF assms(1)] assms(2) obtain z where
    z: "slots z = replicate (max_objs ds) zero_slot" and
    e: "encode_sources co ds pl tm [0] (z, pl_P pl) = Inr (b, P)"
    by (auto simp: upt_rec)
  from e have
    e1: "encode_anns co ds (pl_flipped pl) (pl_affine pl) tm (pl_region_list pl ! 0)
           (pl_P_list pl ! 0) 0 (pl_anns_list pl ! 0) z = Inr b"
    by (auto simp: list_get_def split: sum.splits if_splits)
  from encode_anns_slots[OF e1] z show ?thesis by auto
qed

lemma ex_encode_primary:
  "encode_anns ex_coder ex_ds_mosaic False False ex_trans_mat (0, 4, 0, 4) ex_P2 0
     [ex_ann ''Car'' 0 9 1, ex_ann ''Car'' 0 1 1]
     \<lparr>heat_map = ex_heat_map, slots = [zero_slot, zero_slot, zero_slot, zero_slot]\<rparr> =
   Inr \<lparr>heat_map = ex_heat_map, slots = [zero_slot, ex_slot 0 1 1, zero_slot, zero_slot]\<rparr>"
  by (simp add: ex_defs assemble_defs Let_def eval_nat_numeral)

lemma ex_accepted:
  "\<not> accepted ex_coder ex_ds_mosaic False ex_trans_mat (0, 4, 0, 4) ex_P2 (ex_ann ''Car'' 0 9 1)"
  "accepted ex_coder ex_ds_mosaic False ex_trans_mat (0, 4, 0, 4) ex_P2 (ex_ann ''Car'' 0 1 1)"
  "accepted ex_coder ex_ds_mosaic False ex_trans_mat (4, 8, 0, 4) ex_P2' (ex_ann ''Car'' 0 5 1)"
  "accepted ex_coder ex_ds_mosaic False ex_trans_mat (4, 8, 0, 4) ex_P2' (ex_ann ''Cyclist'' 1 6 2)"
  by (simp_all add: ex_defs assemble_defs Let_def)

lemma ex_object_slot:
  "object_slot ex_coder ex_ds_mosaic False False ex_trans_mat ex_P2 (ex_ann ''Car'' 0 1 1) = ex_slot 0 1 1"
  by (simp add: ex_defs assemble_defs Let_def)

text \<open>
  Claim C1. Each accepted object should go to the next unused slot, the slot counter
  running on across both sources of a mosaic sample, so that accepted objects occupy
  distinct slots and none is overwritten by an object of the other source. The slot
  index of lines 241 to 253 is the loop variable of line 211, which starts again at 0
  for the second source. The evaluation below is \<^verbatim>\<open>__getitem__\<close> on a mosaic sample with
  room for four objects and three accepted objects: the car at (1, 1) of the primary
  source is written to slot 1; the partner's car and cyclist are then written to slots 0
  and 1, and the returned buffers no longer hold the first car. (With one source every
  accepted object keeps its slot: \<open>assemble_single_source\<close>.)
\<close>

theorem mosaic_partner_overwrites_primary:
  "max_objs ex_ds_mosaic = 4 \<and>
   augment decimal ex_ds_mosaic ex_files 0 (ex_rng 2) = Inr ex_plan_mosaic \<and>
   pl_anns_list ex_plan_mosaic =
     [[ex_ann ''Car'' 0 9 1, ex_ann ''Car'' 0 1 1],
      [ex_ann ''Car'' 0 5 1, ex_ann ''Cyclist'' 1 6 2]] \<and>
   pl_region_list ex_plan_mosaic = [(0, 4, 0, 4), (4, 8, 0, 4)] \<and>
   \<not> accepted ex_coder ex_ds_mosaic False ex_trans_mat (0, 4, 0, 4) ex_P2 (ex_ann ''Car'' 0 9 1) \<and>
   accepted ex_coder ex_ds_mosaic False ex_trans_mat (0, 4, 0, 4) ex_P2 (ex_ann ''Car'' 0 1 1) \<and>
   accepted ex_coder ex_ds_mosaic False ex_trans_mat (4, 8, 0, 4) ex_P2' (ex_ann ''Car'' 0 5 1) \<and>
   accepted ex_coder ex_ds_mosaic False ex_trans_mat (4, 8, 0, 4) ex_P2' (ex_ann ''Cyclist'' 1 6 2) \<and>
   object_slot ex_coder ex_ds_mosaic False False ex_trans_mat ex_P2 (ex_ann ''Car'' 0 1 1)
     = ex_slot 0 1 1 \<and>
   encode_anns ex_coder ex_ds_mosaic False False ex_trans_mat (0, 4, 0, 4) ex_P2 0
     [ex_ann ''Car'' 0 9 1, ex_ann ''Car'' 0 1 1]
     \<lparr>heat_map = ex_heat_map, slots = [zero_slot, zero_slot, zero_slot, zero_slot]\<rparr> =
     Inr \<lparr>heat_map = ex_heat_map, slots = [zero_slot, ex_slot 0 1 1, zero_slot, zero_slot]\<rparr> \<and>
   getitem ex_coder decimal ex_ds_mosaic ex_files 0 (ex_rng 2) =
     Inr ((32, 16), TrainTarget (32, 16)
        \<lparr>heat_map = ex_heat_map, slots = [ex_slot 0 5 1, ex_slot 1 6 2, zero_slot, zero_slot]\<rparr>
        ex_trans_mat (ex_P2' @ [[0, 0, 0, 1]])) \<and>
   ex_slot 0 1 1 \<notin> set [ex_slot 0 5 1, ex_slot 1 6 2, zero_slot, zero_slot]"
proof -
  have m: "max_objs ex_ds_mosaic = 4"
    by (simp add: ex_ds_mosaic_def ex_ds_def)
  have p: "pl_anns_list ex_plan_mosaic =
     [[ex_ann ''Car'' 0 9 1, ex_ann ''Car'' 0 1 1],
      [ex_ann ''Car'' 0 5 1, ex_ann ''Cyclist'' 1 6 2]]"
    "pl_region_list ex_plan_mosaic = [(0, 4, 0, 4), (4, 8, 0, 4)]"
    by (simp_all add: ex_plan_mosaic_def)
  have n: "ex_slot 0 1 1 \<notin> set [ex_slot 0 5 1, ex_slot 1 6 2, zero_slot, zero_slot]"
    by (simp add: ex_slot_def zero_slot_def)
  from m p n ex_augment_mosaic ex_accepted ex_object_slot ex_encode_primary ex_getitem_mosaic
  show ?thesis by blast
qed

subsection \<open>Acceptance by region\<close>

lemma encode_anns_write_all:
  "encode_anns co ds fl af tm r P i anns b =
     write_all co fl af
       (filter (\<lambda>(j, a, e). in_region r (e_point e)) (candidates co ds fl tm P i anns)) b"
proof (induction anns arbitrary: i b)
  case Nil
  show ?case by (simp add: candidates_def)
next
  case (Cons a as)
  have c: "candidates co ds fl tm P i (a # as) =
           (i, a, encode_geometry co ds fl tm P a) # candidates co ds fl tm P (Suc i) as"
    by (simp add: candidates_def)
  show ?case
  proof (cases "in_region r (e_point (encode_geometry co ds fl tm P a))")
    case True
    then show ?thesis
      by (simp add: c encode_object_def Let_def Cons.IH split: sum.splits)
  next
    case False
    then show ?thesis
      by (simp add: c encode_object_def Let_def Cons.IH)
  qed
qed

lemma e_point_encode_geometry:
  "e_point (encode_geometry co ds fl tm P a) =
     affine_transform co
       (fst (encode_label co P (if fl then - ann_rot_y a else ann_rot_y a) (ann_dimensions a)
               (case ann_locations a of (x, y, z) \<Rightarrow> if fl then (- x, y, z) else (x, y, z))))
       tm"
  by (simp add: encode_geometry_def Let_def split_beta)

lemma candidates_geometry:
  "(j, a, e) \<in> set (candidates co ds fl tm P i anns) \<Longrightarrow> e = encode_geometry co ds fl tm P a"
  by (auto simp: candidates_def)

lemma filter_candidates_keypoint:
  "filter (\<lambda>(j, a, e). in_region (x0, x1, y0, y1) (e_point e)) (candidates co ds fl tm P i anns) =
   filter (\<lambda>(j, a, e).
       (x0 < fst (affine_transform co
          (fst (encode_label co P (if fl then - ann_rot_y a else ann_rot_y a) (ann_dimensions a)
             (case ann_locations a of (x, y, z) \<Rightarrow> if fl then (- x, y, z) else (x, y, z)))) tm) \<and>
        fst (affine_transform co
          (fst (encode_label co P (if fl then - ann_rot_y a else ann_rot_y a) (ann_dimensions a)
             (case ann_locations a of (x, y, z) \<Rightarrow> if fl then (- x, y, z) else (x, y, z)))) tm) < x1) \<and>
       (y0 < snd (affine_transform co
          (fst (encode_label co P (if fl then - ann_rot_y a else ann_rot_y a) (ann_dimensions a)
             (case ann_locations a of (x, y, z) \<Rightarrow> if fl then (- x, y, z) else (x, y, z)))) tm) \<and>
        snd (affine_transform co
          (fst (encode_label co P (if fl then - ann_rot_y a else ann_rot_y a) (ann_dimensions a)
             (case ann_locations a of (x, y, z) \<Rightarrow> if fl then (- x, y, z) else (x, y, z)))) tm) < y1))
     (candidates co ds fl tm P i anns)"
proof (rule filter_cong[OF refl])
  fix t assume t: "t \<in> set (candidates co ds fl tm P i anns)"
  obtain j a e where te: "t = (j, a, e)" by (cases t)
  with t candidates_geometry have "e = encode_geometry co ds fl tm P a" by fast
  with te show "(case t of (j, a, e) \<Rightarrow> in_region (x0, x1, y0, y1) (e_point e)) =
    (case t of (j, a, e) \<Rightarrow>
       (x0 < fst (affine_transform co
          (fst (encode_label co P (if fl then - ann_rot_y a else ann_rot_y a) (ann_dimensions a)
             (case ann_locations a of (x, y, z) \<Rightarrow> if fl then (- x, y, z) else (x, y, z)))) tm) \<and>
        fst (affine_transform co
          (fst (encode_label co P (if fl then - ann_rot_y a else ann_rot_y a) (ann_dimensions a)
             (case ann_locations a of (x, y, z) \<Rightarrow> if fl then (- x, y, z) else (x, y, z)))) tm) < x1) \<and>
       (y0 < snd (affine_transform co
          (fst (encode_label co P (if fl then - ann_rot_y a else ann_rot_y a) (ann_dimensions a)
             (case ann_locations a of (x, y, z) \<Rightarrow> if fl then (- x, y, z) else (x, y, z)))) tm) \<and>
        snd (affine_transform co
          (fst (encode_label co P (if fl then - ann_rot_y a else ann_rot_y a) (ann_dimensions a)
             (case ann_locations a of (x, y, z) \<Rightarrow> if fl then (- x, y, z) else (x, y, z)))) tm) < y1))"
    by (simp add: in_region_def e_point_encode_geometry)
qed

lemma random_uniform_last:
  "fst (random_uniform a b g) =
     a + (b - a) * floats_tape (snd (random_uniform a b g)) (fpos (snd (random_uniform a b g)) - 1)"
  by (simp add: random_uniform_def random_random_def)

lemma augment_plan_cases:
  assumes a: "augment pf ds fs idx g = Inr pl"
  shows "\<exists>anns P2 P3.
     load_annotations pf ds fs idx = Inr (anns, P2, P3) \<and>
     (if mosaic_composed pl then
        (\<exists>j manns mP2 mP3.
           pl_fetched pl = [idx, j] \<and>
           load_annotations pf ds fs j = Inr (manns, mP2, mP3) \<and>
           pl_anns_list pl = [anns, manns] \<and>
           pl_P_list pl = [pl_P pl, if pl_use_left pl then mP2 else mP3] \<and>
           pl_region_list pl =
             [(0, (3 / 10 + (7 / 10 - 3 / 10) * floats_tape (pl_rng pl) (fpos (pl_rng pl) - 1)) *
                  real_of_int (output_width ds), 0, real_of_int (output_height ds)),
              ((3 / 10 + (7 / 10 - 3 / 10) * floats_tape (pl_rng pl) (fpos (pl_rng pl) - 1)) *
                  real_of_int (output_width ds), real_of_int (output_width ds), 0,
               real_of_int (output_height ds))])
      else pl_anns_list pl = [anns] \<and> pl_P_list pl = [pl_P pl] \<and>
           pl_region_list pl = [(0, real_of_int (output_width ds), 0, real_of_int (output_height ds))])"
proof -
  from augment_Inr[OF a] obtain anns P2 P3 img g3 ft where
    l: "load_annotations pf ds fs idx = Inr (anns, P2, P3)" and
    m: "mosaic_step pf ds fs (pl_use_left pl) (pl_affine pl) (pl_flipped pl) img anns (pl_P pl) g3
        = Inr (pl_anns_list pl, pl_region_list pl, pl_P_list pl, ft, pl_rng pl)" and
    f: "pl_fetched pl = idx # ft"
    by blast
  from m have "if mosaic_composed pl then
        (\<exists>j manns mP2 mP3.
           pl_fetched pl = [idx, j] \<and>
           load_annotations pf ds fs j = Inr (manns, mP2, mP3) \<and>
           pl_anns_list pl = [anns, manns] \<and>
           pl_P_list pl = [pl_P pl, if pl_use_left pl then mP2 else mP3] \<and>
           pl_region_list pl =
             [(0, (3 / 10 + (7 / 10 - 3 / 10) * floats_tape (pl_rng pl) (fpos (pl_rng pl) - 1)) *
                  real_of_int (output_width ds), 0, real_of_int (output_height ds)),
              ((3 / 10 + (7 / 10 - 3 / 10) * floats_tape (pl_rng pl) (fpos (pl_rng pl) - 1)) *
                  real_of_int (output_width ds), real_of_int (output_width ds), 0,
               real_of_int (output_height ds))])
      else pl_anns_list pl = [anns] \<and> pl_P_list pl = [pl_P pl] \<and>
           pl_region_list pl = [(0, real_of_int (output_width ds), 0, real_of_int (output_height ds))]"
  proof (cases rule: mosaic_step_cases)
    case none
    then show ?thesis by (simp add: mosaic_composed_def full_region_def)
  next
    case (mismatch j manns mP2 mP3 name mimg g1)
    then show ?thesis by (simp add: mosaic_composed_def full_region_def)
  next
    case (composed j manns mP2 mP3 name g1)
    have c: "mosaic_composed pl" using composed by (simp add: mosaic_composed_def)
    have s: "fst (random_uniform (3 / 10) (7 / 10) g1) =
        3 / 10 + (7 / 10 - 3 / 10) * floats_tape (pl_rng pl) (fpos (pl_rng pl) - 1)"
      using random_uniform_last[of "3 / 10" "7 / 10" g1] composed by simp
    have "pl_fetched pl = [idx, j] \<and>
           load_annotations pf ds fs j = Inr (manns, mP2, mP3) \<and>
           pl_anns_list pl = [anns, manns] \<and>
           pl_P_list pl = [pl_P pl, if pl_use_left pl then mP2 else mP3] \<and>
           pl_region_list pl =
             [(0, (3 / 10 + (7 / 10 - 3 / 10) * floats_tape (pl_rng pl) (fpos (pl_rng pl) - 1)) *
                  real_of_int (output_width ds), 0, real_of_int (output_height ds)),
              ((3 / 10 + (7 / 10 - 3 / 10) * floats_tape (pl_rng pl) (fpos (pl_rng pl) - 1)) *
                  real_of_int (output_width ds), real_of_int (output_width ds), 0,
               real_of_int (output_height ds))]"
      using composed f unfolding s[symmetric] by simp
    with c show ?thesis by (simp only: if_True) blast
  qed
  with l show ?thesis by blast
qed

lemma augment_active_matrix:
  assumes a: "augment pf ds fs idx g = Inr pl"
    and l: "load_annotations pf ds fs idx = Inr (anns, P2, P3)"
  shows "pl_P pl =
     (if pl_flipped pl then
        P2[0 := (P2 ! 0)[2 := real (fst (pl_img_size pl)) - P2 ! 0 ! 2 - 1]]
      else if pl_use_left pl then P2 else P3)"
proof -
  from augment_Inr[OF a] l obtain img c1 g2 where
    im: "pl_img_size pl = img" and
    fs: "flip_step ds (pl_use_left pl) (real (fst img) / 2, real (snd img) / 2)
        (real (fst img), real (snd img)) (if pl_use_left pl then P2 else P3)
        (snd (choose_view ds g)) = Inr (pl_flipped pl, c1, pl_P pl, g2)"
    by auto
  show ?thesis
  proof (cases "pl_flipped pl")
    case True
    with fs have "flip_step ds (pl_use_left pl) (real (fst img) / 2, real (snd img) / 2)
        (real (fst img), real (snd img)) (if pl_use_left pl then P2 else P3)
        (snd (choose_view ds g)) = Inr (True, c1, pl_P pl, g2)" by simp
    from flip_step_True[OF this] True im show ?thesis by (simp add: flip_x_def)
  next
    case False
    with fs have "flip_step ds (pl_use_left pl) (real (fst img) / 2, real (snd img) / 2)
        (real (fst img), real (snd img)) (if pl_use_left pl then P2 else P3)
        (snd (choose_view ds g)) = Inr (False, c1, pl_P pl, g2)" by simp
    from flip_step_False[OF this] False show ?thesis by simp
  qed
qed

lemma encode_sources_one:
  assumes "pl_anns_list pl = [anns]" "pl_region_list pl = [r]" "pl_P_list pl = [Q]"
    and "encode_sources co ds pl tm [0..<length (pl_anns_list pl)] (z, P0) = Inr (b, P)"
  shows "write_all co (pl_flipped pl) (pl_affine pl)
           (filter (\<lambda>(j, a, e). in_region r (e_point e))
              (candidates co ds (pl_flipped pl) tm Q 0 anns)) z = Inr b"
  using assms
  by (simp add: list_get_def encode_anns_write_all split: sum.splits)

lemma encode_sources_two:
  assumes "pl_anns_list pl = [anns, manns]" "pl_region_list pl = [r, mr]" "pl_P_list pl = [Q, mQ]"
    and "encode_sources co ds pl tm [0..<length (pl_anns_list pl)] (z, P0) = Inr (b, P)"
  shows "bindE (write_all co (pl_flipped pl) (pl_affine pl)
                  (filter (\<lambda>(j, a, e). in_region r (e_point e))
                     (candidates co ds (pl_flipped pl) tm Q 0 anns)) z)
           (write_all co (pl_flipped pl) (pl_affine pl)
                  (filter (\<lambda>(j, a, e). in_region mr (e_point e))
                     (candidates co ds (pl_flipped pl) tm mQ 0 manns))) = Inr b"
  using assms
  by (simp add: list_get_def encode_anns_write_all upt_rec bindE_def split: sum.splits)

lemma ex_load_primary:
  "load_annotations decimal ex_ds_mosaic ex_files 0 =
     Inr ([ex_ann ''Car'' 0 9 1, ex_ann ''Car'' 0 1 1], ex_P2, ex_P3)"
  by (simp add: ex_defs loader_defs Let_def)

lemma ex_load_partner:
  "load_annotations decimal ex_ds_mosaic ex_files 2 =
     Inr ([ex_ann ''Car'' 0 5 1, ex_ann ''Cyclist'' 1 6 2], ex_P2',
          [[9, 0, 5, - 4], [0, 9, 2, 0], [0, 0, 1, 0]])"
  by (simp add: ex_defs loader_defs Let_def)

text \<open>
  Claim C9. An annotation is written into a target slot if and only if its projected,
  output-grid-transformed keypoint lies strictly inside the region of the output grid
  assigned to its source. Stated for a training sample as \<^verbatim>\<open>__getitem__\<close> returns it
  (with no \<^verbatim>\<open>transforms\<close> hook): the returned buffers are the zero buffers after the
  writes of lines 235 to 253 for exactly those annotations, taken in order and each at
  its position in its own source, whose point passes the strict test of line 232. The
  point of an annotation is written out: the first component of \<^verbatim>\<open>encode_label\<close> on the
  matrix of the source, the rotation and the location (both mirrored when the sample is
  flipped) and the dimensions, sent through \<^verbatim>\<open>affine_transform\<close> with the matrix that
  \<^verbatim>\<open>get_transfrom_matrix\<close> gives for the virtual centre and size and the output size,
  which is also the matrix returned in the target. The annotations are those the loader
  returns for the index of the source; the matrix of the primary source is the active
  matrix of its view, with entry \<open>[0, 2]\<close> mirrored when the sample is flipped. For a
  sample that is not mosaic-composed the only region is the full output grid,
  \<open>0 < x < width\<close> and \<open>0 < y < height\<close>. For a mosaic-composed sample the primary source
  is tested against \<open>0 < x < split\<close> and the partner against \<open>split < x < width\<close>, both
  with \<open>0 < y < height\<close>, where \<open>split\<close> is the output width times the split fraction,
  and the split fraction is \<open>0.3 + (0.7 - 0.3) * u\<close> for the last value \<open>u\<close> drawn from
  the generator; the primary's writes come first and the partner's follow on the same
  buffers.
\<close>

theorem keypoint_region_acceptance:
  assumes "is_train ds" and "transforms ds = None"
    and "getitem co pf ds fs idx g = Inr (img, tgt)"
  shows "\<exists>pl anns P2 P3 z b P.
     augment pf ds fs idx g = Inr pl \<and>
     load_annotations pf ds fs idx = Inr (anns, P2, P3) \<and>
     zero_buffers ds = Inr z \<and>
     pl_P pl =
       (if pl_flipped pl then
          P2[0 := (P2 ! 0)[2 := real (fst (pl_img_size pl)) - P2 ! 0 ! 2 - 1]]
        else if pl_use_left pl then P2 else P3) \<and>
     (let trans_mat = get_transfrom_matrix co (pl_center pl, pl_size pl)
                        (output_width ds, output_height ds);
          flipped = pl_flipped pl;
          point = (\<lambda>Q a.
            affine_transform co
              (fst (encode_label co Q (if flipped then - ann_rot_y a else ann_rot_y a)
                      (ann_dimensions a)
                      (case ann_locations a of
                         (x, y, z) \<Rightarrow> if flipped then (- x, y, z) else (x, y, z))))
              trans_mat);
          written = (\<lambda>x0 x1 y0 y1 Q as.
            filter (\<lambda>(i, a, e). (x0 < fst (point Q a) \<and> fst (point Q a) < x1) \<and>
                                 (y0 < snd (point Q a) \<and> snd (point Q a) < y1))
              (candidates co ds flipped trans_mat Q 0 as));
          width = real_of_int (output_width ds);
          height = real_of_int (output_height ds);
          split = (3 / 10 + (7 / 10 - 3 / 10) * floats_tape (pl_rng pl) (fpos (pl_rng pl) - 1)) *
                  width
      in tgt = TrainTarget (input_width ds, input_height ds) b trans_mat P \<and>
         (if mosaic_composed pl then
            (\<exists>j manns mP2 mP3.
               pl_fetched pl = [idx, j] \<and>
               load_annotations pf ds fs j = Inr (manns, mP2, mP3) \<and>
               bindE (write_all co flipped (pl_affine pl)
                        (written 0 split 0 height (pl_P pl) anns) z)
                 (write_all co flipped (pl_affine pl)
                    (written split width 0 height (if pl_use_left pl then mP2 else mP3) manns))
               = Inr b)
          else write_all co flipped (pl_affine pl) (written 0 width 0 height (pl_P pl) anns) z
               = Inr b))"
proof -
  from getitem_train_Inr[OF assms] obtain pl b P P' where
    a: "augment pf ds fs idx g = Inr pl" and
    s: "assemble co ds pl (get_transfrom_matrix co (pl_center pl, pl_size pl)
                        (output_width ds, output_height ds)) = Inr (b, P)" and
    t: "tgt = TrainTarget (input_width ds, input_height ds) b
            (get_transfrom_matrix co (pl_center pl, pl_size pl)
                        (output_width ds, output_height ds)) P'"
    by blast
  let ?tm = "get_transfrom_matrix co (pl_center pl, pl_size pl) (output_width ds, output_height ds)"
  from assemble_Inr[OF s] obtain z where
    z: "zero_buffers ds = Inr z" and
    es: "encode_sources co ds pl ?tm [0..<length (pl_anns_list pl)] (z, pl_P pl) = Inr (b, P)"
    by blast
  from augment_plan_cases[OF a] obtain anns P2 P3 where
    l: "load_annotations pf ds fs idx = Inr (anns, P2, P3)" and
    c: "if mosaic_composed pl then
        (\<exists>j manns mP2 mP3.
           pl_fetched pl = [idx, j] \<and>
           load_annotations pf ds fs j = Inr (manns, mP2, mP3) \<and>
           pl_anns_list pl = [anns, manns] \<and>
           pl_P_list pl = [pl_P pl, if pl_use_left pl then mP2 else mP3] \<and>
           pl_region_list pl =
             [(0, (3 / 10 + (7 / 10 - 3 / 10) * floats_tape (pl_rng pl) (fpos (pl_rng pl) - 1)) *
                  real_of_int (output_width ds), 0, real_of_int (output_height ds)),
              ((3 / 10 + (7 / 10 - 3 / 10) * floats_tape (pl_rng pl) (fpos (pl_rng pl) - 1)) *
                  real_of_int (output_width ds), real_of_int (output_width ds), 0,
               real_of_int (output_height ds))])
      else pl_anns_list pl = [anns] \<and> pl_P_list pl = [pl_P pl] \<and>
           pl_region_list pl = [(0, real_of_int (output_width ds), 0, real_of_int (output_height ds))]"
    by blast
  note m = augment_active_matrix[OF a l]
  show ?thesis
  proof (cases "mosaic_composed pl")
    case True
    with c obtain j manns mP2 mP3 where
      f: "pl_fetched pl = [idx, j]" and
      ml: "load_annotations pf ds fs j = Inr (manns, mP2, mP3)" and
      al: "pl_anns_list pl = [anns, manns]" and
      Pl: "pl_P_list pl = [pl_P pl, if pl_use_left pl then mP2 else mP3]" and
      rl: "pl_region_list pl =
             [(0, (3 / 10 + (7 / 10 - 3 / 10) * floats_tape (pl_rng pl) (fpos (pl_rng pl) - 1)) *
                  real_of_int (output_width ds), 0, real_of_int (output_height ds)),
              ((3 / 10 + (7 / 10 - 3 / 10) * floats_tape (pl_rng pl) (fpos (pl_rng pl) - 1)) *
                  real_of_int (output_width ds), real_of_int (output_width ds), 0,
               real_of_int (output_height ds))]"
      by auto
    note w = encode_sources_two[OF al rl Pl es, unfolded filter_candidates_keypoint]
    show ?thesis
      unfolding Let_def
      apply (rule exI[of _ pl], rule exI[of _ anns], rule exI[of _ P2], rule exI[of _ P3])
      apply (rule exI[of _ z], rule exI[of _ b], rule exI[of _ P'])
      apply (intro conjI)
           apply (rule a)
          apply (rule l)
         apply (rule z)
        apply (rule m)
       apply (rule t)
      apply (simp only: True if_True)
      apply (intro exI conjI)
        apply (rule f)
       apply (rule ml)
      apply (rule w)
      done
  next
    case False
    with c have al: "pl_anns_list pl = [anns]" and Pl: "pl_P_list pl = [pl_P pl]" and
      rl: "pl_region_list pl = [(0, real_of_int (output_width ds), 0, real_of_int (output_height ds))]"
      by auto
    note w = encode_sources_one[OF al rl Pl es, unfolded filter_candidates_keypoint]
    show ?thesis
      unfolding Let_def
      apply (rule exI[of _ pl], rule exI[of _ anns], rule exI[of _ P2], rule exI[of _ P3])
      apply (rule exI[of _ z], rule exI[of _ b], rule exI[of _ P'])
      apply (intro conjI)
           apply (rule a)
          apply (rule l)
         apply (rule z)
        apply (rule m)
       apply (rule t)
      apply (simp only: False if_False)
      apply (rule w)
      done
  qed
qed

theorem keypoint_region_acceptance_witness:
  "is_train ex_ds_mosaic \<and> transforms ex_ds_mosaic = None \<and>
   getitem ex_coder decimal ex_ds_mosaic ex_files 0 (ex_rng 2) =
     Inr ((32, 16), TrainTarget (32, 16)
        \<lparr>heat_map = ex_heat_map, slots = [ex_slot 0 5 1, ex_slot 1 6 2, zero_slot, zero_slot]\<rparr>
        ex_trans_mat (ex_P2' @ [[0, 0, 0, 1]])) \<and>
   augment decimal ex_ds_mosaic ex_files 0 (ex_rng 2) = Inr ex_plan_mosaic \<and>
   mosaic_composed ex_plan_mosaic \<and>
   load_annotations decimal ex_ds_mosaic ex_files 0 =
     Inr ([ex_ann ''Car'' 0 9 1, ex_ann ''Car'' 0 1 1], ex_P2, ex_P3) \<and>
   load_annotations decimal ex_ds_mosaic ex_files 2 =
     Inr ([ex_ann ''Car'' 0 5 1, ex_ann ''Cyclist'' 1 6 2], ex_P2',
          [[9, 0, 5, - 4], [0, 9, 2, 0], [0, 0, 1, 0]]) \<and>
   (3 / 10 + (7 / 10 - 3 / 10) *
      floats_tape (pl_rng ex_plan_mosaic) (fpos (pl_rng ex_plan_mosaic) - 1)) *
     real_of_int (output_width ex_ds_mosaic) = 4 \<and>
   (\<exists>z. zero_buffers ex_ds_mosaic = Inr z \<and>
      bindE
        (write_all ex_coder False False
           (filter
              (\<lambda>(i, a, e).
                 (0 < fst (affine_transform ex_coder
                            (fst (encode_label ex_coder ex_P2 (ann_rot_y a) (ann_dimensions a)
                                    (ann_locations a))) ex_trans_mat) \<and>
                  fst (affine_transform ex_coder
                            (fst (encode_label ex_coder ex_P2 (ann_rot_y a) (ann_dimensions a)
                                    (ann_locations a))) ex_trans_mat) < 4) \<and>
                 (0 < snd (affine_transform ex_coder
                            (fst (encode_label ex_coder ex_P2 (ann_rot_y a) (ann_dimensions a)
                                    (ann_locations a))) ex_trans_mat) \<and>
                  snd (affine_transform ex_coder
                            (fst (encode_label ex_coder ex_P2 (ann_rot_y a) (ann_dimensions a)
                                    (ann_locations a))) ex_trans_mat) < 4))
              (candidates ex_coder ex_ds_mosaic False ex_trans_mat ex_P2 0
                 [ex_ann ''Car'' 0 9 1, ex_ann ''Car'' 0 1 1])) z)
        (write_all ex_coder False False
           (filter
              (\<lambda>(i, a, e).
                 (4 < fst (affine_transform ex_coder
                            (fst (encode_label ex_coder ex_P2' (ann_rot_y a) (ann_dimensions a)
                                    (ann_locations a))) ex_trans_mat) \<and>
                  fst (affine_transform ex_coder
                            (fst (encode_label ex_coder ex_P2' (ann_rot_y a) (ann_dimensions a)
                                    (ann_locations a))) ex_trans_mat) < 8) \<and>
                 (0 < snd (affine_transform ex_coder
                            (fst (encode_label ex_coder ex_P2' (ann_rot_y a) (ann_dimensions a)
                                    (ann_locations a))) ex_trans_mat) \<and>
                  snd (affine_transform ex_coder
                            (fst (encode_label ex_coder ex_P2' (ann_rot_y a) (ann_dimensions a)
                                    (ann_locations a))) ex_trans_mat) < 4))
              (candidates ex_coder ex_ds_mosaic False ex_trans_mat ex_P2' 0
                 [ex_ann ''Car'' 0 5 1, ex_ann ''Cyclist'' 1 6 2]))) =
      Inr \<lparr>heat_map = ex_heat_map,
           slots = [ex_slot 0 5 1, ex_slot 1 6 2, zero_slot, zero_slot]\<rparr>) \<and>
   map fst (filter
              (\<lambda>(i, a, e).
                 (0 < fst (affine_transform ex_coder
                            (fst (encode_label ex_coder ex_P2 (ann_rot_y a) (ann_dimensions a)
                                    (ann_locations a))) ex_trans_mat) \<and>
                  fst (affine_transform ex_coder
                            (fst (encode_label ex_coder ex_P2 (ann_rot_y a) (ann_dimensions a)
                                    (ann_locations a))) ex_trans_mat) < 4) \<and>
                 (0 < snd (affine_transform ex_coder
                            (fst (encode_label ex_coder ex_P2 (ann_rot_y a) (ann_dimensions a)
                                    (ann_locations a))) ex_trans_mat) \<and>
                  snd (affine_transform ex_coder
                            (fst (encode_label ex_coder ex_P2 (ann_rot_y a) (ann_dimensions a)
                                    (ann_locations a))) ex_trans_mat) < 4))
              (candidates ex_coder ex_ds_mosaic False ex_trans_mat ex_P2 0
                 [ex_ann ''Car'' 0 9 1, ex_ann ''Car'' 0 1 1])) = [1]"
proof -
  have d: "is_train ex_ds_mosaic" "transforms ex_ds_mosaic = None"
    by (simp_all add: ex_ds_mosaic_def ex_ds_def)
  have p: "mosaic_composed ex_plan_mosaic" "pl_P ex_plan_mosaic = ex_P2"
    "pl_use_left ex_plan_mosaic" "pl_fetched ex_plan_mosaic = [0, 2]"
    "\<not> pl_flipped ex_plan_mosaic" "\<not> pl_affine ex_plan_mosaic"
    by (simp_all add: ex_plan_mosaic_def mosaic_composed_def)
  have v: "floats_tape (pl_rng ex_plan_mosaic) k = 1 / 2"
    "output_width ex_ds_mosaic = 8" "output_height ex_ds_mosaic = 4" for k
    by (simp_all add: ex_plan_mosaic_def ex_rng_def ex_ds_mosaic_def ex_ds_def)
  have s: "(3 / 10 + (7 / 10 - 3 / 10) *
      floats_tape (pl_rng ex_plan_mosaic) (fpos (pl_rng ex_plan_mosaic) - 1)) *
     real_of_int (output_width ex_ds_mosaic) = 4"
    by (simp add: v)
  note T = keypoint_region_acceptance[OF d ex_getitem_mosaic, unfolded Let_def]
  have w: "\<exists>z. zero_buffers ex_ds_mosaic = Inr z \<and>
      bindE
        (write_all ex_coder False False
           (filter
              (\<lambda>(i, a, e).
                 (0 < fst (affine_transform ex_coder
                            (fst (encode_label ex_coder ex_P2 (ann_rot_y a) (ann_dimensions a)
                                    (ann_locations a))) ex_trans_mat) \<and>
                  fst (affine_transform ex_coder
                            (fst (encode_label ex_coder ex_P2 (ann_rot_y a) (ann_dimensions a)
                                    (ann_locations a))) ex_trans_mat) < 4) \<and>
                 (0 < snd (affine_transform ex_coder
                            (fst (encode_label ex_coder ex_P2 (ann_rot_y a) (ann_dimensions a)
                                    (ann_locations a))) ex_trans_mat) \<and>
                  snd (affine_transform ex_coder
                            (fst (encode_label ex_coder ex_P2 (ann_rot_y a) (ann_dimensions a)
                                    (ann_locations a))) ex_trans_mat) < 4))
              (candidates ex_coder ex_ds_mosaic False ex_trans_mat ex_P2 0
                 [ex_ann ''Car'' 0 9 1, ex_ann ''Car'' 0 1 1])) z)
        (write_all ex_coder False False
           (filter
              (\<lambda>(i, a, e).
                 (4 < fst (affine_transform ex_coder
                            (fst (encode_label ex_coder ex_P2' (ann_rot_y a) (ann_dimensions a)
                                    (ann_locations a))) ex_trans_mat) \<and>
                  fst (affine_transform ex_coder
                            (fst (encode_label ex_coder ex_P2' (ann_rot_y a) (ann_dimensions a)
                                    (ann_locations a))) ex_trans_mat) < 8) \<and>
                 (0 < snd (affine_transform ex_coder
                            (fst (encode_label ex_coder ex_P2' (ann_rot_y a) (ann_dimensions a)
                                    (ann_locations a))) ex_trans_mat) \<and>
                  snd (affine_transform ex_coder
                            (fst (encode_label ex_coder ex_P2' (ann_rot_y a) (ann_dimensions a)
                                    (ann_locations a))) ex_trans_mat) < 4))
              (candidates ex_coder ex_ds_mosaic False ex_trans_mat ex_P2' 0
                 [ex_ann ''Car'' 0 5 1, ex_ann ''Cyclist'' 1 6 2]))) =
      Inr \<lparr>heat_map = ex_heat_map,
           slots = [ex_slot 0 5 1, ex_slot 1 6 2, zero_slot, zero_slot]\<rparr>"
    using T
    apply (elim exE conjE)
    apply (simp add: ex_augment_mosaic)
    apply (elim exE conjE)
    apply (simp add: p ex_load_primary ex_load_partner v)
    done
  have f: "map fst (filter
              (\<lambda>(i, a, e).
                 (0 < fst (affine_transform ex_coder
                            (fst (encode_label ex_coder ex_P2 (ann_rot_y a) (ann_dimensions a)
                                    (ann_locations a))) ex_trans_mat) \<and>
                  fst (affine_transform ex_coder
                            (fst (encode_label ex_coder ex_P2 (ann_rot_y a) (ann_dimensions a)
                                    (ann_locations a))) ex_trans_mat) < 4) \<and>
                 (0 < snd (affine_transform ex_coder
                            (fst (encode_label ex_coder ex_P2 (ann_rot_y a) (ann_dimensions a)
                                    (ann_locations a))) ex_trans_mat) \<and>
                  snd (affine_transform ex_coder
                            (fst (encode_label ex_coder ex_P2 (ann_rot_y a) (ann_dimensions a)
                                    (ann_locations a))) ex_trans_mat) < 4))
              (candidates ex_coder ex_ds_mosaic False ex_trans_mat ex_P2 0
                 [ex_ann ''Car'' 0 9 1, ex_ann ''Car'' 0 1 1])) = [1]"
    by (simp add: candidates_def enumerate_eq_zip upt_rec ex_coder_def ex_ann_def)
  from d ex_getitem_mosaic ex_augment_mosaic p(1) ex_load_primary ex_load_partner s w f
  show ?thesis by (intro conjI)
qed

subsection \<open>Failures of the loader\<close>

lemma to_float_Inl: "to_float pf v = Inl e \<Longrightarrow> e = TypeError \<or> e = ValueError"
  by (auto simp: to_float_def split: option.splits)

lemma to_float_Some_Inl: "to_float pf (Some s) = Inl e \<Longrightarrow> e = ValueError"
  by (auto simp: to_float_def split: option.splits)

lemma parse_annotation_Inr:
  assumes "parse_annotation pf ty row = Inr a" "k \<in> set read_fields"
  shows "\<exists>x. to_float pf (field row k) = Inr x"
  using assms unfolding parse_annotation_def bindE_Inr_iff read_fields_def
  by auto

lemma floats_Inl: "floats pf ss = Inl e \<Longrightarrow> e = ValueError"
  by (induction ss arbitrary: e) (auto split: sum.splits dest: to_float_Some_Inl)

lemma parse_matrix_Inl: "parse_matrix pf vals = Inl e \<Longrightarrow> e = ValueError"
  by (auto simp: parse_matrix_def bindE_Inl_iff reshape_3_4_def dest: floats_Inl split: if_splits)

lemma field_fault_iff: "field_fault pf row k \<longleftrightarrow> (\<exists>e. to_float pf (field row k) = Inl e)"
  by (simp add: field_fault_def to_float_def split: option.splits)

lemma to_float_cases:
  obtains e where "to_float pf v = Inl e" | x where "to_float pf v = Inr x"
  by (cases "to_float pf v") auto

lemma parse_annotation_kinds:
  "parse_annotation pf ty row = Inl e \<Longrightarrow> e = KeyError \<or> e = TypeError \<or> e = ValueError"
  unfolding parse_annotation_def bindE_Inl_iff
  by (auto dest!: to_float_Inl split: option.splits)

lemma parse_annotation_Inr_type:
  "parse_annotation pf ty row = Inr a \<Longrightarrow> TYPE_ID_CONVERSION ty \<noteq> None"
  unfolding parse_annotation_def bindE_Inr_iff by (auto split: option.splits)

lemma parse_annotation_ok:
  assumes "TYPE_ID_CONVERSION ty \<noteq> None" "\<not> list_ex (field_fault pf row) read_fields"
  shows "\<exists>a. parse_annotation pf ty row = Inr a"
proof -
  from assms(2) have f: "\<And>k. k \<in> set read_fields \<Longrightarrow> \<exists>x. to_float pf (field row k) = Inr x"
    unfolding list_ex_iff field_fault_iff by (metis to_float_cases)
  have "\<exists>x. to_float pf (field row 1) = Inr x" "\<exists>x. to_float pf (field row 2) = Inr x"
    "\<exists>x. to_float pf (field row 3) = Inr x" "\<exists>x. to_float pf (field row 10) = Inr x"
    "\<exists>x. to_float pf (field row 8) = Inr x" "\<exists>x. to_float pf (field row 9) = Inr x"
    "\<exists>x. to_float pf (field row 11) = Inr x" "\<exists>x. to_float pf (field row 12) = Inr x"
    "\<exists>x. to_float pf (field row 13) = Inr x" "\<exists>x. to_float pf (field row 14) = Inr x"
    by (rule f, simp add: read_fields_def)+
  with assms(1) show ?thesis
    unfolding parse_annotation_def by (auto split: option.splits)
qed

lemma parse_annotation_fails_iff:
  "(\<exists>e. parse_annotation pf ty row = Inl e) \<longleftrightarrow>
     TYPE_ID_CONVERSION ty = None \<or> list_ex (field_fault pf row) read_fields"
proof
  assume "\<exists>e. parse_annotation pf ty row = Inl e"
  then obtain e where e: "parse_annotation pf ty row = Inl e" ..
  show "TYPE_ID_CONVERSION ty = None \<or> list_ex (field_fault pf row) read_fields"
  proof (rule ccontr)
    assume "\<not> ?thesis"
    with parse_annotation_ok[of ty pf row] e show False by auto
  qed
next
  assume r: "TYPE_ID_CONVERSION ty = None \<or> list_ex (field_fault pf row) read_fields"
  show "\<exists>e. parse_annotation pf ty row = Inl e"
  proof (cases "parse_annotation pf ty row")
    case (Inl e)
    then show ?thesis by blast
  next
    case (Inr a)
    from parse_annotation_Inr_type[OF Inr] r obtain k where
      k: "k \<in> set read_fields" "field_fault pf row k"
      by (auto simp: list_ex_iff)
    from parse_annotation_Inr[OF Inr k(1)] k(2) show ?thesis
      by (auto simp: field_fault_iff)
  qed
qed

lemma read_labels_fails_iff:
  "(\<exists>e. read_labels pf cls rows = Inl e) \<longleftrightarrow> label_fault pf cls rows"
proof (induction rows)
  case Nil
  show ?case by (simp add: label_fault_def)
next
  case (Cons row rows)
  show ?case
  proof (cases row)
    case Nil
    with Cons show ?thesis by (simp add: label_fault_def label_row_fault_def)
  next
    case (Cons ty rest)
    show ?thesis
    proof (cases "ty \<in> set cls")
      case False
      with Cons Cons.IH show ?thesis by (simp add: label_fault_def label_row_fault_def)
    next
      case True
      show ?thesis
      proof (cases "parse_annotation pf ty row")
        case (Inl e)
        with parse_annotation_fails_iff[of pf ty row] Cons True show ?thesis
          by (auto simp: label_fault_def label_row_fault_def)
      next
        case (Inr a)
        with parse_annotation_fails_iff[of pf ty row]
        have "\<not> label_row_fault pf cls row"
          using Cons by (auto simp: label_row_fault_def)
        with Inr Cons True Cons.IH show ?thesis
          by (auto simp: label_fault_def split: sum.splits)
      qed
    qed
  qed
qed

lemma read_labels_kinds:
  "read_labels pf cls rows = Inl e \<Longrightarrow> e = KeyError \<or> e = TypeError \<or> e = ValueError"
  by (induction rows arbitrary: e)
     (auto split: list.splits if_splits sum.splits dest: parse_annotation_kinds)

lemma to_float_present:
  "k < length row \<Longrightarrow> to_float pf (field row k) = Inl e \<Longrightarrow> e = ValueError"
  by (auto simp: field_def dest: to_float_Some_Inl)

lemma parse_annotation_well_shaped:
  assumes "parse_annotation pf ty row = Inl e" "TYPE_ID_CONVERSION ty \<noteq> None" "15 \<le> length row"
  shows "e = ValueError"
  using assms unfolding parse_annotation_def bindE_Inl_iff
  by (auto dest!: to_float_present[rotated] split: option.splits)

lemma read_labels_well_shaped:
  "read_labels pf cls rows = Inl e \<Longrightarrow> well_shaped cls rows \<Longrightarrow> e = ValueError"
proof (induction rows arbitrary: e)
  case Nil
  then show ?case by simp
next
  case (Cons row rows)
  from Cons.prems(2) have w: "well_shaped cls rows" by (simp add: well_shaped_def)
  show ?case
  proof (cases row)
    case Nil
    with Cons.prems(1) Cons.IH[OF _ w] show ?thesis by simp
  next
    case c: (Cons ty rest)
    show ?thesis
    proof (cases "ty \<in> set cls")
      case False
      with c Cons.prems(1) Cons.IH[OF _ w] show ?thesis by simp
    next
      case True
      with c Cons.prems(2) have s: "TYPE_ID_CONVERSION ty \<noteq> None" "15 \<le> length row"
        by (simp_all add: well_shaped_def)
      show ?thesis
      proof (cases "parse_annotation pf ty row")
        case (Inl e')
        with c True Cons.prems(1) have "e' = e" by simp
        with parse_annotation_well_shaped[OF Inl s] show ?thesis by simp
      next
        case (Inr a)
        with c True Cons.prems(1) have "read_labels pf cls rows = Inl e"
          by (auto split: sum.splits)
        from Cons.IH[OF this w] show ?thesis .
      qed
    qed
  qed
qed

lemma calib_scanned_simps:
  "calib_scanned [] = []"
  "calib_scanned (row # rows) =
     (if row \<noteq> [] \<and> hd row = ''P3:'' then [row] else row # calib_scanned rows)"
  by (simp_all add: calib_scanned_def)

lemma floats_fails_iff: "(\<exists>e. floats pf ss = Inl e) \<longleftrightarrow> list_ex (\<lambda>v. pf v = None) ss"
  by (induction ss) (auto simp: to_float_def split: sum.splits option.splits)

lemma floats_length: "floats pf ss = Inr xs \<Longrightarrow> length xs = length ss"
  by (induction ss arbitrary: xs) (auto split: sum.splits)

lemma parse_matrix_fails_iff:
  "(\<exists>e. parse_matrix pf vals = Inl e) \<longleftrightarrow>
     length vals \<noteq> 12 \<or> list_ex (\<lambda>v. pf v = None) vals"
proof (cases "floats pf vals")
  case (Inl e)
  with floats_fails_iff[of pf vals] show ?thesis by (auto simp: parse_matrix_def)
next
  case (Inr xs)
  with floats_fails_iff[of pf vals] have n: "\<not> list_ex (\<lambda>v. pf v = None) vals" by auto
  from Inr floats_length have "length xs = length vals" by blast
  with Inr n show ?thesis by (auto simp: parse_matrix_def reshape_3_4_def)
qed

lemma read_calib_fails_iff:
  "(\<exists>e. read_calib pf rows P2 = Inl e) \<longleftrightarrow> calib_fault pf rows"
proof (induction rows arbitrary: P2)
  case Nil
  show ?case by (simp add: calib_fault_def calib_scanned_simps)
next
  case (Cons row rows)
  have IH: "\<And>P2. (\<exists>e. read_calib pf rows P2 = Inl e) \<longleftrightarrow>
                  list_ex (calib_row_fault pf) (calib_scanned rows)"
    using Cons.IH by (simp add: calib_fault_def)
  show ?case
  proof (cases row)
    case Nil
    then show ?thesis by (simp add: calib_fault_def calib_scanned_simps calib_row_fault_def)
  next
    case c: (Cons tag vals)
    show ?thesis
    proof (cases "parse_matrix pf vals")
      case (Inl e)
      with parse_matrix_fails_iff[of pf vals]
      have "length vals \<noteq> 12 \<or> list_ex (\<lambda>v. pf v = None) vals" by blast
      with Inl c IH show ?thesis
        by (simp add: calib_fault_def calib_scanned_simps calib_row_fault_def)
    next
      case (Inr m)
      with parse_matrix_fails_iff[of pf vals]
      have "\<not> (length vals \<noteq> 12 \<or> list_ex (\<lambda>v. pf v = None) vals)" by auto
      with Inr c IH show ?thesis
        by (simp add: calib_fault_def calib_scanned_simps calib_row_fault_def)
    qed
  qed
qed

lemma read_calib_kinds:
  "read_calib pf rows P2 = Inl e \<Longrightarrow> e = IndexError \<or> e = ValueError"
  by (induction rows arbitrary: P2)
     (auto split: list.splits if_splits sum.splits dest: parse_matrix_Inl)

lemma read_calib_no_empty:
  "read_calib pf rows P2 = Inl e \<Longrightarrow> [] \<notin> set (calib_scanned rows) \<Longrightarrow> e = ValueError"
  by (induction rows arbitrary: P2)
     (auto simp: calib_scanned_simps split: list.splits if_splits sum.splits dest: parse_matrix_Inl)

lemma read_calib_bound:
  "read_calib pf rows P2 = Inr (a, b) \<Longrightarrow>
     (b \<noteq> None \<longleftrightarrow> has_row ''P3:'' rows) \<and>
     (a \<noteq> None \<longleftrightarrow> P2 \<noteq> None \<or> has_row ''P2:'' (calib_scanned rows))"
proof (induction rows arbitrary: P2)
  case Nil
  then show ?case by (auto simp: has_row_def calib_scanned_simps)
next
  case (Cons row rows)
  show ?case
  proof (cases row)
    case Nil
    with Cons.prems show ?thesis by simp
  next
    case c: (Cons tag vals)
    consider (p2) "tag = ''P2:''" | (p3) "tag = ''P3:''" | (other) "tag \<noteq> ''P2:''" "tag \<noteq> ''P3:''"
      by blast
    then show ?thesis
    proof cases
      case p2
      with c Cons.prems obtain m where "read_calib pf rows (Some m) = Inr (a, b)"
        by (auto split: sum.splits)
      from Cons.IH[OF this] c p2 show ?thesis
        by (simp add: has_row_def calib_scanned_simps)
    next
      case p3
      with c Cons.prems show ?thesis
        by (auto simp: has_row_def calib_scanned_simps split: sum.splits)
    next
      case other
      with c Cons.prems have "read_calib pf rows P2 = Inr (a, b)" by simp
      from Cons.IH[OF this] c other show ?thesis
        by (simp add: has_row_def calib_scanned_simps)
    qed
  qed
qed

lemma calib_rows_missing_iff:
  "read_calib pf rows None = Inr (a, b) \<Longrightarrow> calib_rows_missing rows \<longleftrightarrow> a = None \<or> b = None"
  using read_calib_bound[of pf rows None a b] by (auto simp: calib_rows_missing_def)

lemma has_row_scanned: "has_row tag (calib_scanned rows) \<Longrightarrow> has_row tag rows"
  by (induction rows) (auto simp: has_row_def calib_scanned_simps split: if_splits)

lemma rows_missing_plain:
  "\<not> has_row ''P2:'' rows \<or> \<not> has_row ''P3:'' rows \<Longrightarrow> calib_rows_missing rows"
  using has_row_scanned[of "''P2:''" rows] by (auto simp: calib_rows_missing_def)

lemma field_blank:
  "k \<notin> {4, 5, 6, 7} \<Longrightarrow> k < 15 \<Longrightarrow>
   field (take 15 (row[4 := a, 5 := b, 6 := c, 7 := d])) k = field row k"
  by (auto simp: field_def)

lemma parse_annotation_blank:
  "parse_annotation pf ty (take 15 (row[4 := a, 5 := b, 6 := c, 7 := d])) = parse_annotation pf ty row"
  by (simp add: parse_annotation_def field_blank)

lemma hd_blank:
  "row \<noteq> [] \<Longrightarrow> take 15 (row[4 := a, 5 := b, 6 := c, 7 := d]) \<noteq> [] \<and>
                 hd (take 15 (row[4 := a, 5 := b, 6 := c, 7 := d])) = hd row"
  by (cases row) (simp_all add: hd_conv_nth)

lemma read_labels_relevant:
  "read_labels pf cls (relevant_labels cls rows) = read_labels pf cls rows"
proof (induction rows)
  case Nil
  show ?case by (simp add: relevant_labels_def)
next
  case (Cons row rows)
  have IH: "read_labels pf cls
      (map (\<lambda>row. take 15 (row[4 := [], 5 := [], 6 := [], 7 := []]))
         (filter (\<lambda>row. row \<noteq> [] \<and> hd row \<in> set cls) rows)) = read_labels pf cls rows"
    using Cons.IH by (simp add: relevant_labels_def)
  show ?case
  proof (cases "row \<noteq> [] \<and> hd row \<in> set cls")
    case False
    with IH show ?thesis by (cases row) (simp_all add: relevant_labels_def)
  next
    case True
    then obtain ty rest where r: "row = ty # rest" "ty \<in> set cls" by (cases row) auto
    from True hd_blank[of row "[]" "[]" "[]" "[]"] obtain rest' where
      b: "take 15 (row[4 := [], 5 := [], 6 := [], 7 := []]) = ty # rest'"
      using r by (cases "take 15 (row[4 := [], 5 := [], 6 := [], 7 := []])") auto
    have "read_labels pf cls (relevant_labels cls (row # rows)) =
          read_labels pf cls (take 15 (row[4 := [], 5 := [], 6 := [], 7 := []]) #
             map (\<lambda>row. take 15 (row[4 := [], 5 := [], 6 := [], 7 := []]))
               (filter (\<lambda>row. row \<noteq> [] \<and> hd row \<in> set cls) rows))"
      using True by (simp add: relevant_labels_def)
    also have "\<dots> = read_labels pf cls (row # rows)"
      using parse_annotation_blank[of pf ty row "[]" "[]" "[]" "[]"] IH r(2)
      unfolding b r(1)[symmetric]
      by (simp add: r(1) b[unfolded r(1)] split: sum.splits)
    finally show ?thesis .
  qed
qed

lemma read_calib_relevant:
  "read_calib pf (relevant_calib rows) P2 = read_calib pf rows P2"
proof (induction rows arbitrary: P2)
  case Nil
  show ?case by (simp add: relevant_calib_def calib_scanned_simps)
next
  case (Cons row rows)
  have IH: "\<And>P2. read_calib pf
      (filter (\<lambda>row. row = [] \<or> hd row = ''P2:'' \<or> hd row = ''P3:'') (calib_scanned rows)) P2 =
      read_calib pf rows P2"
    using Cons.IH by (simp add: relevant_calib_def)
  show ?case
    by (cases row) (auto simp: relevant_calib_def calib_scanned_simps IH split: sum.splits)
qed

lemmas fault_defs = label_missing_def label_faulty_def labels_well_shaped_def calib_missing_def
  calib_faulty_def calib_no_empty_row_def calib_incomplete_def

lemma load_stages:
  assumes "idx < length (label_files ds)"
  shows "load_annotations pf ds fs idx =
     (case (if is_train ds
            then (case label_dir fs (label_files ds ! idx) of
                    None \<Rightarrow> Inl IOError
                  | Some rows \<Rightarrow> read_labels pf (classes ds) rows)
            else Inr []) of
        Inl e \<Rightarrow> Inl e
      | Inr anns \<Rightarrow>
          (case calib_dir fs (label_files ds ! idx) of
             None \<Rightarrow> Inl IOError
           | Some crows \<Rightarrow>
               (case read_calib pf crows None of
                  Inl e \<Rightarrow> Inl e
                | Inr (a, b) \<Rightarrow>
                    (case a of
                       None \<Rightarrow> Inl UnboundLocalError
                     | Some P2 \<Rightarrow>
                         (case b of
                            None \<Rightarrow> Inl UnboundLocalError
                          | Some P3 \<Rightarrow> Inr (anns, P2, P3))))))"
  using assms
  by (simp add: load_annotations_def list_get_def open_file_def local_var_def bindE_def
           split: sum.splits option.splits prod.splits)

lemma load_label_missing:
  assumes "idx < length (label_files ds)" "label_missing ds fs idx"
  shows "load_annotations pf ds fs idx = Inl IOError"
  using assms(2) by (simp add: load_stages[OF assms(1)] label_missing_def)

lemma load_label_faulty:
  assumes "idx < length (label_files ds)" "label_faulty pf ds fs idx"
  shows "\<exists>e. load_annotations pf ds fs idx = Inl e \<and>
             (e = KeyError \<or> e = TypeError \<or> e = ValueError) \<and>
             (labels_well_shaped ds fs idx \<longrightarrow> e = ValueError)"
proof -
  from assms(2) obtain rows where t: "is_train ds" and
    l: "label_dir fs (label_files ds ! idx) = Some rows" and
    f: "label_fault pf (classes ds) rows"
    by (auto simp: label_faulty_def split: option.splits)
  from f read_labels_fails_iff[of pf "classes ds" rows] obtain e where
    e: "read_labels pf (classes ds) rows = Inl e" by blast
  from e t l have "load_annotations pf ds fs idx = Inl e"
    by (simp add: load_stages[OF assms(1)])
  with read_labels_kinds[OF e] read_labels_well_shaped[OF e] l show ?thesis
    by (auto simp: labels_well_shaped_def)
qed

lemma label_stage_ok:
  assumes "\<not> label_missing ds fs idx" "\<not> label_faulty pf ds fs idx"
  shows "\<exists>anns. (if is_train ds
            then (case label_dir fs (label_files ds ! idx) of
                    None \<Rightarrow> Inl IOError
                  | Some rows \<Rightarrow> read_labels pf (classes ds) rows)
            else Inr []) = Inr anns"
proof (cases "is_train ds")
  case False
  then show ?thesis by simp
next
  case True
  with assms(1) obtain rows where l: "label_dir fs (label_files ds ! idx) = Some rows"
    by (auto simp: label_missing_def)
  with assms(2) True have "\<not> label_fault pf (classes ds) rows"
    by (simp add: label_faulty_def)
  with read_labels_fails_iff[of pf "classes ds" rows] obtain anns where
    "read_labels pf (classes ds) rows = Inr anns"
    by (cases "read_labels pf (classes ds) rows") auto
  with True l show ?thesis by simp
qed

lemma load_calib_missing:
  assumes "idx < length (label_files ds)"
    "\<not> label_missing ds fs idx" "\<not> label_faulty pf ds fs idx" "calib_missing ds fs idx"
  shows "load_annotations pf ds fs idx = Inl IOError"
  using label_stage_ok[OF assms(2,3)] assms(4)
  by (auto simp: load_stages[OF assms(1)] calib_missing_def)

lemma load_calib_faulty:
  assumes "idx < length (label_files ds)"
    "\<not> label_missing ds fs idx" "\<not> label_faulty pf ds fs idx" "calib_faulty pf ds fs idx"
  shows "\<exists>e. load_annotations pf ds fs idx = Inl e \<and> (e = IndexError \<or> e = ValueError) \<and>
             (calib_no_empty_row ds fs idx \<longrightarrow> e = ValueError)"
proof -
  from assms(4) obtain crows where c: "calib_dir fs (label_files ds ! idx) = Some crows" and
    f: "calib_fault pf crows"
    by (auto simp: calib_faulty_def split: option.splits)
  from f read_calib_fails_iff[of pf crows None] obtain e where
    e: "read_calib pf crows None = Inl e" by blast
  from label_stage_ok[OF assms(2,3)] c e have "load_annotations pf ds fs idx = Inl e"
    by (auto simp: load_stages[OF assms(1)])
  with read_calib_kinds[OF e] read_calib_no_empty[OF e] c show ?thesis
    by (auto simp: calib_no_empty_row_def)
qed

lemma calib_stage_ok:
  assumes "\<not> calib_missing ds fs idx" "\<not> calib_faulty pf ds fs idx"
  shows "\<exists>crows a b. calib_dir fs (label_files ds ! idx) = Some crows \<and>
           read_calib pf crows None = Inr (a, b) \<and>
           (calib_incomplete ds fs idx \<longleftrightarrow> a = None \<or> b = None)"
proof -
  from assms(1) obtain crows where c: "calib_dir fs (label_files ds ! idx) = Some crows"
    by (auto simp: calib_missing_def)
  with assms(2) have "\<not> calib_fault pf crows" by (simp add: calib_faulty_def)
  with read_calib_fails_iff[of pf crows None] obtain a b where
    r: "read_calib pf crows None = Inr (a, b)"
    by (cases "read_calib pf crows None") auto
  from calib_rows_missing_iff[OF r] c r show ?thesis
    by (simp add: calib_incomplete_def)
qed

lemma load_calib_incomplete:
  assumes "idx < length (label_files ds)"
    "\<not> label_missing ds fs idx" "\<not> label_faulty pf ds fs idx"
    "\<not> calib_faulty pf ds fs idx" "calib_incomplete ds fs idx"
  shows "load_annotations pf ds fs idx = Inl UnboundLocalError"
proof -
  from assms(5) have "\<not> calib_missing ds fs idx"
    by (auto simp: calib_incomplete_def calib_missing_def split: option.splits)
  from calib_stage_ok[OF this assms(4)] assms(5) obtain crows a b where
    "calib_dir fs (label_files ds ! idx) = Some crows"
    "read_calib pf crows None = Inr (a, b)" "a = None \<or> b = None"
    by blast
  with label_stage_ok[OF assms(2,3)] show ?thesis
    by (auto simp: load_stages[OF assms(1)] split: option.splits)
qed

lemma load_no_fault:
  assumes "idx < length (label_files ds)"
    "\<not> label_missing ds fs idx" "\<not> label_faulty pf ds fs idx" "\<not> calib_missing ds fs idx"
    "\<not> calib_faulty pf ds fs idx" "\<not> calib_incomplete ds fs idx"
  shows "\<exists>r. load_annotations pf ds fs idx = Inr r"
proof -
  from calib_stage_ok[OF assms(4,5)] assms(6) obtain crows a b where
    "calib_dir fs (label_files ds ! idx) = Some crows"
    "read_calib pf crows None = Inr (a, b)" "a \<noteq> None" "b \<noteq> None"
    by blast
  with label_stage_ok[OF assms(2,3)] show ?thesis
    by (auto simp: load_stages[OF assms(1)] split: option.splits)
qed

lemma load_fails_iff:
  assumes "idx < length (label_files ds)"
  shows "(\<exists>e. load_annotations pf ds fs idx = Inl e) \<longleftrightarrow>
     label_missing ds fs idx \<or> label_faulty pf ds fs idx \<or> calib_missing ds fs idx \<or>
     calib_faulty pf ds fs idx \<or> calib_incomplete ds fs idx"
proof (cases "label_missing ds fs idx")
  case True
  with load_label_missing[OF assms, of fs pf] show ?thesis by simp
next
  case lm: False
  show ?thesis
  proof (cases "label_faulty pf ds fs idx")
    case True
    with load_label_faulty[OF assms, of pf fs] show ?thesis by auto
  next
    case lf: False
    show ?thesis
    proof (cases "calib_missing ds fs idx")
      case True
      with load_calib_missing[OF assms lm lf] show ?thesis by simp
    next
      case cm: False
      show ?thesis
      proof (cases "calib_faulty pf ds fs idx")
        case True
        with load_calib_faulty[OF assms lm lf] show ?thesis by auto
      next
        case cf: False
        show ?thesis
        proof (cases "calib_incomplete ds fs idx")
          case True
          with load_calib_incomplete[OF assms lm lf cf] show ?thesis by simp
        next
          case False
          with load_no_fault[OF assms lm lf cm cf] lm lf cm cf show ?thesis by auto
        qed
      qed
    qed
  qed
qed

lemma load_IOError_iff:
  assumes "idx < length (label_files ds)"
  shows "load_annotations pf ds fs idx = Inl IOError \<longleftrightarrow>
     label_missing ds fs idx \<or> (\<not> label_faulty pf ds fs idx \<and> calib_missing ds fs idx)"
proof (cases "label_missing ds fs idx")
  case True
  with load_label_missing[OF assms, of fs pf] show ?thesis by simp
next
  case lm: False
  show ?thesis
  proof (cases "label_faulty pf ds fs idx")
    case True
    with load_label_faulty[OF assms, of pf fs] lm show ?thesis by auto
  next
    case lf: False
    show ?thesis
    proof (cases "calib_missing ds fs idx")
      case True
      with load_calib_missing[OF assms lm lf] lm lf show ?thesis by simp
    next
      case cm: False
      show ?thesis
      proof (cases "calib_faulty pf ds fs idx")
        case True
        with load_calib_faulty[OF assms lm lf] lm lf cm show ?thesis by auto
      next
        case cf: False
        show ?thesis
        proof (cases "calib_incomplete ds fs idx")
          case True
          with load_calib_incomplete[OF assms lm lf cf] lm lf cm show ?thesis by simp
        next
          case False
          with load_no_fault[OF assms lm lf cm cf] lm lf cm show ?thesis by auto
        qed
      qed
    qed
  qed
qed

lemma calib_incomplete_plain:
  assumes "calib_dir fs (label_files ds ! idx) = Some crows"
    "\<not> has_row ''P2:'' crows \<or> \<not> has_row ''P3:'' crows"
  shows "calib_incomplete ds fs idx"
  using assms rows_missing_plain[of crows] by (simp add: calib_incomplete_def)

lemma load_same_relevant:
  assumes "idx < length (label_files ds)" "same_relevant_content ds fs fs' idx"
  shows "load_annotations pf ds fs' idx = load_annotations pf ds fs idx"
proof -
  have l: "is_train ds \<Longrightarrow>
      (case label_dir fs' (label_files ds ! idx) of
         None \<Rightarrow> Inl IOError
       | Some rows \<Rightarrow> read_labels pf (classes ds) rows) =
      (case label_dir fs (label_files ds ! idx) of
         None \<Rightarrow> Inl IOError
       | Some rows \<Rightarrow> read_labels pf (classes ds) rows)"
  proof -
    assume "is_train ds"
    with assms(2) have e:
      "map_option (relevant_labels (classes ds)) (label_dir fs' (label_files ds ! idx)) =
       map_option (relevant_labels (classes ds)) (label_dir fs (label_files ds ! idx))"
      by (simp add: same_relevant_content_def)
    show ?thesis
    proof (cases "label_dir fs (label_files ds ! idx)")
      case None
      with e show ?thesis by simp
    next
      case (Some rows)
      with e obtain rows' where s': "label_dir fs' (label_files ds ! idx) = Some rows'"
        and r: "relevant_labels (classes ds) rows' = relevant_labels (classes ds) rows"
        by auto
      from r read_labels_relevant[of pf "classes ds" rows]
        read_labels_relevant[of pf "classes ds" rows']
      have "read_labels pf (classes ds) rows' = read_labels pf (classes ds) rows" by simp
      with Some s' show ?thesis by simp
    qed
  qed
  have c: "(case calib_dir fs' (label_files ds ! idx) of
              None \<Rightarrow> None | Some crows \<Rightarrow> Some (read_calib pf crows None)) =
           (case calib_dir fs (label_files ds ! idx) of
              None \<Rightarrow> None | Some crows \<Rightarrow> Some (read_calib pf crows None))"
  proof -
    from assms(2) have e:
      "map_option relevant_calib (calib_dir fs' (label_files ds ! idx)) =
       map_option relevant_calib (calib_dir fs (label_files ds ! idx))"
      by (simp add: same_relevant_content_def)
    show ?thesis
    proof (cases "calib_dir fs (label_files ds ! idx)")
      case None
      with e show ?thesis by simp
    next
      case (Some rows)
      with e obtain rows' where s': "calib_dir fs' (label_files ds ! idx) = Some rows'"
        and r: "relevant_calib rows' = relevant_calib rows"
        by auto
      from r read_calib_relevant[of pf rows None] read_calib_relevant[of pf rows' None]
      have "read_calib pf rows' None = read_calib pf rows None" by simp
      with Some s' show ?thesis by simp
    qed
  qed
  show ?thesis
  proof (cases "is_train ds")
    case True
    from l[OF True] c True show ?thesis
      unfolding load_stages[OF assms(1)]
      by (auto split: option.splits sum.splits)
  next
    case False
    with c show ?thesis
      unfolding load_stages[OF assms(1)]
      by (auto split: option.splits sum.splits)
  qed
qed

lemmas fault_eval = fault_defs label_fault_def label_row_fault_def field_fault_def well_shaped_def
  calib_fault_def calib_row_fault_def calib_rows_missing_def calib_scanned_def has_row_def
  read_fields_def field_def TYPE_ID_CONVERSION_def same_relevant_content_def relevant_labels_def
  relevant_calib_def

text \<open>
  Claim C5 says that the loader fails when a numeric field of an annotation or
  calibration row holds malformed text. The loader converts only ten fields of an
  annotation row, and only the \<^verbatim>\<open>P2:\<close> and \<^verbatim>\<open>P3:\<close> rows of the calibration file. Below,
  frame 0 has the text \<^verbatim>\<open>abc\<close> in the \<^verbatim>\<open>xmin\<close> field of its first row and \<^verbatim>\<open>x\<close> in
  its \<^verbatim>\<open>P0:\<close> calibration row, neither of which is a number, and the loader returns the
  annotations and both matrices.
\<close>

theorem malformed_box_field_counterexample:
  "decimal ''abc'' = None \<and> decimal ''x'' = None \<and>
   label_dir ex_files ''0.txt'' =
     Some [ex_row ''Car'' ''abc'' ''9'' ''1'', ex_row ''Van'' ''0'' ''1'' ''1'',
           ex_row ''Car'' ''0'' ''1'' ''1''] \<and>
   field (ex_row ''Car'' ''abc'' ''9'' ''1'') 4 = Some ''abc'' \<and>
   calib_dir ex_files ''0.txt'' = Some ex_calib \<and>
   hd ex_calib = [''P0:'', ''x''] \<and>
   load_annotations decimal ex_ds ex_files 0 =
     Inr ([ex_ann ''Car'' 0 9 1, ex_ann ''Car'' 0 1 1], ex_P2, ex_P3)"
  by (simp add: ex_defs loader_defs)

text \<open>
  Claim C5, amended. For a frame index in range, the loader reads the annotation file (in
  training only) and then the calibration file, and the first step that fails decides
  the exception. Python has no exception named \<open>ParseError\<close>; the exceptions raised on
  malformed content are the builtin ones named below.

  \<^item> The loader fails if and only if one of five faults is present: in training the
    annotation file cannot be opened; in training an annotation row is at fault (a row
    of a configured class with no entry in the class table, or with one of the ten
    converted fields absent or not a number); the calibration file cannot be opened; a
    calibration row that the loop reaches is at fault (an empty row, or a \<^verbatim>\<open>P2:\<close> or
    \<^verbatim>\<open>P3:\<close> row that does not hold twelve numbers); or the calibration file has no
    \<^verbatim>\<open>P3:\<close> row or no \<^verbatim>\<open>P2:\<close> row before its first \<^verbatim>\<open>P3:\<close> row.
  \<^item> It fails with \<^verbatim>\<open>IOError\<close> exactly when, in training, the annotation file cannot be
    opened, or when the calibration file cannot be opened and no annotation row is at
    fault.
  \<^item> When an annotation row is at fault it fails with \<^verbatim>\<open>KeyError\<close>, \<^verbatim>\<open>TypeError\<close> or
    \<^verbatim>\<open>ValueError\<close>, whatever the calibration file; with \<^verbatim>\<open>ValueError\<close> when the rows are
    well shaped, that is when the fault is malformed numeric text.
  \<^item> When the annotation file was read without failure and a calibration row is at fault,
    it fails with \<^verbatim>\<open>IndexError\<close> or \<^verbatim>\<open>ValueError\<close>; with \<^verbatim>\<open>ValueError\<close> when no row that
    the loop reaches is empty, that is when the fault is malformed text or a wrong number
    of values in a \<^verbatim>\<open>P2:\<close> or \<^verbatim>\<open>P3:\<close> row.
  \<^item> When the annotation file was read without failure, no calibration row is at fault
    and the calibration file lacks its \<^verbatim>\<open>P3:\<close> row or a \<^verbatim>\<open>P2:\<close> row before it, it fails
    with \<^verbatim>\<open>UnboundLocalError\<close>. A calibration file with no \<^verbatim>\<open>P2:\<close> row or no \<^verbatim>\<open>P3:\<close>
    row at all is such a file.
  \<^item> Nothing else is read: two sets of files that agree on the rows of configured
    classes outside their 2D-box fields, and on the empty, \<^verbatim>\<open>P2:\<close> and \<^verbatim>\<open>P3:\<close> rows up
    to the first \<^verbatim>\<open>P3:\<close> row, give the same result. So text in a 2D-box field, in a row
    of another class, in a calibration row with another tag or after the first \<^verbatim>\<open>P3:\<close>
    row never makes the loader fail.
\<close>

theorem loader_failures:
  assumes "idx < length (label_files ds)"
  shows
    "((\<exists>e. load_annotations pf ds fs idx = Inl e) \<longleftrightarrow>
        label_missing ds fs idx \<or> label_faulty pf ds fs idx \<or> calib_missing ds fs idx \<or>
        calib_faulty pf ds fs idx \<or> calib_incomplete ds fs idx) \<and>
     (load_annotations pf ds fs idx = Inl IOError \<longleftrightarrow>
        label_missing ds fs idx \<or> (\<not> label_faulty pf ds fs idx \<and> calib_missing ds fs idx)) \<and>
     (label_faulty pf ds fs idx \<longrightarrow>
        (\<exists>e. load_annotations pf ds fs idx = Inl e \<and>
             (e = KeyError \<or> e = TypeError \<or> e = ValueError) \<and>
             (labels_well_shaped ds fs idx \<longrightarrow> e = ValueError))) \<and>
     (\<not> label_missing ds fs idx \<and> \<not> label_faulty pf ds fs idx \<and> calib_faulty pf ds fs idx \<longrightarrow>
        (\<exists>e. load_annotations pf ds fs idx = Inl e \<and>
             (e = IndexError \<or> e = ValueError) \<and>
             (calib_no_empty_row ds fs idx \<longrightarrow> e = ValueError))) \<and>
     (\<not> label_missing ds fs idx \<and> \<not> label_faulty pf ds fs idx \<and>
      \<not> calib_faulty pf ds fs idx \<and> calib_incomplete ds fs idx \<longrightarrow>
        load_annotations pf ds fs idx = Inl UnboundLocalError) \<and>
     (calib_dir fs (label_files ds ! idx) = Some crows \<and>
      (\<not> has_row ''P2:'' crows \<or> \<not> has_row ''P3:'' crows) \<longrightarrow>
        calib_incomplete ds fs idx) \<and>
     (same_relevant_content ds fs fs' idx \<longrightarrow>
        load_annotations pf ds fs' idx = load_annotations pf ds fs idx)"
proof (intro conjI impI)
  show "(\<exists>e. load_annotations pf ds fs idx = Inl e) \<longleftrightarrow>
        label_missing ds fs idx \<or> label_faulty pf ds fs idx \<or> calib_missing ds fs idx \<or>
        calib_faulty pf ds fs idx \<or> calib_incomplete ds fs idx"
    by (rule load_fails_iff[OF assms])
  show "load_annotations pf ds fs idx = Inl IOError \<longleftrightarrow>
        label_missing ds fs idx \<or> (\<not> label_faulty pf ds fs idx \<and> calib_missing ds fs idx)"
    by (rule load_IOError_iff[OF assms])
next
  assume "label_faulty pf ds fs idx"
  then show "\<exists>e. load_annotations pf ds fs idx = Inl e \<and>
             (e = KeyError \<or> e = TypeError \<or> e = ValueError) \<and>
             (labels_well_shaped ds fs idx \<longrightarrow> e = ValueError)"
    by (rule load_label_faulty[OF assms])
next
  assume "\<not> label_missing ds fs idx \<and> \<not> label_faulty pf ds fs idx \<and> calib_faulty pf ds fs idx"
  then show "\<exists>e. load_annotations pf ds fs idx = Inl e \<and>
             (e = IndexError \<or> e = ValueError) \<and>
             (calib_no_empty_row ds fs idx \<longrightarrow> e = ValueError)"
    using load_calib_faulty[OF assms, of fs pf] by blast
next
  assume "\<not> label_missing ds fs idx \<and> \<not> label_faulty pf ds fs idx \<and>
      \<not> calib_faulty pf ds fs idx \<and> calib_incomplete ds fs idx"
  then show "load_annotations pf ds fs idx = Inl UnboundLocalError"
    using load_calib_incomplete[OF assms, of fs pf] by blast
next
  assume "calib_dir fs (label_files ds ! idx) = Some crows \<and>
      (\<not> has_row ''P2:'' crows \<or> \<not> has_row ''P3:'' crows)"
  then show "calib_incomplete ds fs idx"
    using calib_incomplete_plain[of fs ds idx crows] by blast
next
  assume "same_relevant_content ds fs fs' idx"
  then show "load_annotations pf ds fs' idx = load_annotations pf ds fs idx"
    by (rule load_same_relevant[OF assms])
qed

theorem loader_failures_witness:
  "load_annotations decimal ex_ds
     (ex_files\<lparr>label_dir := Map.empty, calib_dir := [''0.txt'' \<mapsto> [[''P0:'', ''x'']]]\<rparr>) 0 =
     Inl IOError \<and>
   load_annotations decimal ex_ds
     (ex_files\<lparr>label_dir := [''0.txt'' \<mapsto> [ex_row ''Car'' ''0'' ''abc'' ''1'']],
               calib_dir := Map.empty\<rparr>) 0 = Inl ValueError \<and>
   load_annotations decimal ex_ds (ex_files\<lparr>calib_dir := Map.empty\<rparr>) 0 = Inl IOError \<and>
   load_annotations decimal ex_ds
     (ex_files\<lparr>calib_dir := [''0.txt'' \<mapsto> [[''P0:'', ''x''], [''P2:'', ''abc'']]]\<rparr>) 0 =
     Inl ValueError \<and>
   load_annotations decimal ex_ds (ex_files\<lparr>calib_dir := [''0.txt'' \<mapsto> take 2 ex_calib]\<rparr>) 0 =
     Inl UnboundLocalError \<and>
   load_annotations decimal ex_ds
     (ex_files\<lparr>label_dir := [''0.txt'' \<mapsto> [ex_row ''Car'' ''7'' ''9'' ''1'',
                                            ex_row ''Car'' ''0'' ''1'' ''1'']],
               calib_dir := [''0.txt'' \<mapsto> tl ex_calib @ [[''P3:'', ''y'']]]\<rparr>) 0 =
     load_annotations decimal ex_ds ex_files 0 \<and>
   load_annotations decimal ex_ds ex_files 0 =
     Inr ([ex_ann ''Car'' 0 9 1, ex_ann ''Car'' 0 1 1], ex_P2, ex_P3)"
proof -
  have i: "(0::nat) < length (label_files ex_ds)" by (simp add: ex_ds_def)
  let ?f1 = "ex_files\<lparr>label_dir := Map.empty, calib_dir := [''0.txt'' \<mapsto> [[''P0:'', ''x'']]]\<rparr>"
  let ?f2 = "ex_files\<lparr>label_dir := [''0.txt'' \<mapsto> [ex_row ''Car'' ''0'' ''abc'' ''1'']],
               calib_dir := Map.empty\<rparr>"
  let ?f3 = "ex_files\<lparr>calib_dir := Map.empty\<rparr>"
  let ?f4 = "ex_files\<lparr>calib_dir := [''0.txt'' \<mapsto> [[''P0:'', ''x''], [''P2:'', ''abc'']]]\<rparr>"
  let ?f5 = "ex_files\<lparr>calib_dir := [''0.txt'' \<mapsto> take 2 ex_calib]\<rparr>"
  let ?f6 = "ex_files\<lparr>label_dir := [''0.txt'' \<mapsto> [ex_row ''Car'' ''7'' ''9'' ''1'',
                                            ex_row ''Car'' ''0'' ''1'' ''1'']],
               calib_dir := [''0.txt'' \<mapsto> tl ex_calib @ [[''P3:'', ''y'']]]\<rparr>"
  have c1: "label_missing ex_ds ?f1 0"
    by (simp add: fault_eval ex_defs)
  have c2: "label_faulty decimal ex_ds ?f2 0" "labels_well_shaped ex_ds ?f2 0"
    by (simp_all add: fault_eval ex_defs)
  have c3: "\<not> label_faulty decimal ex_ds ?f3 0" "calib_missing ex_ds ?f3 0"
    by (simp_all add: fault_eval ex_defs)
  have c4: "\<not> label_missing ex_ds ?f4 0" "\<not> label_faulty decimal ex_ds ?f4 0"
    "calib_faulty decimal ex_ds ?f4 0" "calib_no_empty_row ex_ds ?f4 0"
    by (simp_all add: fault_eval ex_defs)
  have c5: "\<not> label_missing ex_ds ?f5 0" "\<not> label_faulty decimal ex_ds ?f5 0"
    "\<not> calib_faulty decimal ex_ds ?f5 0" "calib_dir ?f5 (label_files ex_ds ! 0) = Some (take 2 ex_calib)"
    "\<not> has_row ''P3:'' (take 2 ex_calib)"
    by (simp_all add: fault_eval ex_defs)
  have c6: "same_relevant_content ex_ds ex_files ?f6 0"
    by (simp add: fault_eval ex_defs)
  have r1: "load_annotations decimal ex_ds ?f1 0 = Inl IOError"
    using loader_failures[where idx = 0 and ds = ex_ds and pf = decimal and fs = ?f1, OF i] c1
    by blast
  have r2: "load_annotations decimal ex_ds ?f2 0 = Inl ValueError"
    using loader_failures[where idx = 0 and ds = ex_ds and pf = decimal and fs = ?f2, OF i] c2
    by blast
  have r3: "load_annotations decimal ex_ds ?f3 0 = Inl IOError"
    using loader_failures[where idx = 0 and ds = ex_ds and pf = decimal and fs = ?f3, OF i] c3
    by blast
  have r4: "load_annotations decimal ex_ds ?f4 0 = Inl ValueError"
    using loader_failures[where idx = 0 and ds = ex_ds and pf = decimal and fs = ?f4, OF i] c4
    by blast
  have r5: "load_annotations decimal ex_ds ?f5 0 = Inl UnboundLocalError"
    using loader_failures[where idx = 0 and ds = ex_ds and pf = decimal and fs = ?f5
        and crows = "take 2 ex_calib", OF i] c5
    by blast
  have r6: "load_annotations decimal ex_ds ?f6 0 = load_annotations decimal ex_ds ex_files 0"
    using loader_failures[where idx = 0 and ds = ex_ds and pf = decimal and fs = ex_files
        and fs' = ?f6, OF i] c6
    by blast
  have r7: "load_annotations decimal ex_ds ex_files 0 =
     Inr ([ex_ann ''Car'' 0 9 1, ex_ann ''Car'' 0 1 1], ex_P2, ex_P3)"
    by (simp add: ex_defs loader_defs)
  from r1 r2 r3 r4 r5 r6 r7 show ?thesis by (intro conjI)
qed

end
